theory Spec2Isabelle
  imports Complex_Main "HOL-Library.AList" "HOL-Library.Multiset"
begin

section \<open>The azure\_monitor input plugin\<close>

text \<open>
  A shallow embedding of \<^verbatim>\<open>plugins/inputs/azure_monitor/azure_monitor.go\<close>.
  The plugin polls one REST endpoint, decodes the JSON answer into a fixed schema,
  regroups the data points by their time stamp string and hands one field set per
  time stamp to the accumulator.

  Everything the plugin calls but does not define (the HTTP client, the autorest
  preparer, the credential library, \<^verbatim>\<open>encoding/json\<close>, \<^verbatim>\<open>time.Parse\<close> and the
  order in which the Go runtime walks a map) is a field of the record \<open>world\<close>;
  the theorems hold for every such world.
\<close>

subsection \<open>Values\<close>

text \<open>
  \<^verbatim>\<open>float64\<close>: the plugin only copies the \<^verbatim>\<open>Average\<close> of a datum into a field, it
  never computes with it nor compares it, so the numbers are kept as reals.
\<close>

type_synonym float64 = real

text \<open>
  Go's \<^verbatim>\<open>error\<close> values. \<open>AzureMonitorError\<close> is the plugin's own error type,
  \<open>ErrorsNew\<close> is the value of \<^verbatim>\<open>errors.New\<close>, \<open>LibraryError\<close> is any error handed
  back by a library call. \<open>Panic\<close> is a run-time panic: it is not a returned error,
  it unwinds through the caller, which never recovers.
\<close>

datatype error =
    AzureMonitorError string
  | ErrorsNew string
  | LibraryError string
  | Panic string

text \<open>What \<^verbatim>\<open>encoding/json\<close> stores in an \<^verbatim>\<open>interface{}\<close>.\<close>

datatype json =
    JNull
  | JBool bool
  | JNumber float64
  | JString string
  | JArray "json list"
  | JObject "(string \<times> json) list"

subsection \<open>The response model\<close>

record AzureMonitorResponseValueName =
  LocalizedValue :: string
  Value :: string

record AzureMonitorResponseTimeSeriesDatum =
  Average :: float64
  TimeStamp :: string

record AzureMonitorResponseTimeSeries =
  Data :: "AzureMonitorResponseTimeSeriesDatum list"
  MetadataValues :: "(string \<times> json) list list"

text \<open>The field \<^verbatim>\<open>Id\<close> is written \<open>Id'\<close>: \<open>Id\<close> is the identity relation of HOL.\<close>

record AzureMonitorResponseValue =
  DisplayDescription :: string
  ErrorCode :: string
  Id' :: string
  Name :: AzureMonitorResponseValueName
  TimeSeries :: "AzureMonitorResponseTimeSeries list"
  Type :: string
  Unit :: string

text \<open>
  The field \<^verbatim>\<open>Value\<close> of the response is written \<open>Values\<close>, since
  \<open>Value\<close> is already the field of \<open>AzureMonitorResponseValueName\<close>.
\<close>

record AzureMonitorResponse =
  Cost :: float64
  Interval :: string
  Namespace :: string
  ResourceRegion :: string
  Timespan :: string
  Values :: "AzureMonitorResponseValue list"

subsection \<open>HTTP, the accumulator and the outside world\<close>

record Request =
  Method :: string
  URL :: string
  Header :: "(string \<times> string) list"

text \<open>
  A completed \<^verbatim>\<open>http.Response\<close>: its status code and what \<^verbatim>\<open>io.ReadAll(resp.Body)\<close>
  returns, the bytes of the body or a read error.
\<close>

record Response =
  StatusCode :: int
  Body :: "error + string"

text \<open>
  Go maps are association lists with distinct keys; \<open>AList.update\<close> is the assignment
  \<^verbatim>\<open>m[k] = v\<close> and \<open>map_of\<close> the lookup. The position of a key in the list has no
  meaning: a \<^verbatim>\<open>range\<close> over a map visits the entries in an order of the runtime's
  choice, the field \<open>map_range\<close> of the world.
\<close>

type_synonym fields = "(string \<times> float64) list"
type_synonym tags = "(string \<times> string) list"
type_synonym buckets = "(string \<times> fields) list"

text \<open>
  The accumulator is the list of the \<^verbatim>\<open>AddFields\<close> calls it has received:
  measurement, fields, tags and time.
\<close>

datatype 't acc_call = AddFields string fields tags 't

type_synonym 't accumulator = "'t acc_call list"

text \<open>The calls that reach outside the process, in the order they are made.\<close>

datatype call =
    CallNewAuthorizerFromEnvironment
  | CallPrepare Request
  | CallDo Request

record ('au, 't) world =
  NewAuthorizerFromEnvironment :: "error + 'au"
  NewRequest :: "string \<Rightarrow> string \<Rightarrow> error + Request"
  Prepare :: "'au \<Rightarrow> Request \<Rightarrow> error + Request"
  Do :: "Request \<Rightarrow> error + Response"
  Decode :: "string \<Rightarrow> error + AzureMonitorResponse"
  Parse :: "string \<Rightarrow> error + 't"
  map_range :: "buckets \<Rightarrow> buckets"

text \<open>
  \<open>Parse w ts\<close> is \<^verbatim>\<open>time.Parse(time.RFC3339, ts)\<close>. A runtime is well behaved
  when its \<^verbatim>\<open>range\<close> visits every entry of a map exactly once, in whatever order.
\<close>

definition range_ok :: "('au, 't) world \<Rightarrow> bool" where
  "range_ok w \<longleftrightarrow> (\<forall>m. mset (map_range w m) = mset m)"

subsection \<open>parseResponse\<close>

text \<open>\<^verbatim>\<open>%v\<close> of an \<^verbatim>\<open>int\<close>: decimal digits, with a minus sign when negative.\<close>

fun formatNat :: "nat \<Rightarrow> string" where
  "formatNat n =
     (if n < 10 then [''0123456789'' ! n]
      else formatNat (n div 10) @ [''0123456789'' ! (n mod 10)])"

declare formatNat.simps [simp del]

definition formatInt :: "int \<Rightarrow> string" where
  "formatInt i = (if i < 0 then ''-'' @ formatNat (nat (- i)) else formatNat (nat i))"

definition parseResponse :: "('au, 't) world \<Rightarrow> Response \<Rightarrow> error + AzureMonitorResponse" where
  "parseResponse w resp =
     (case Body resp of
        Inl err \<Rightarrow> Inl err
      | Inr body \<Rightarrow>
          if StatusCode resp < 200 \<or> StatusCode resp > 299
          then Inl (AzureMonitorError
                 (''Azure monitor request returned error. Status '' @ formatInt (StatusCode resp)
                    @ '':'' @ [CHR 0x0A] @ body))
          else (case Decode w body of
                  Inl err \<Rightarrow> Inl err
                | Inr response \<Rightarrow> Inr response))"

subsection \<open>The plugin\<close>

text \<open>
  The \<^verbatim>\<open>Log\<close> field is never read or written and is left out. The authorizer is an
  interface value, \<open>None\<close> while it is \<^verbatim>\<open>nil\<close>.
\<close>

record 'au AzureMonitor =
  ResourceId :: string
  authorizer :: "'au option"

definition Init ::
  "('au, 't) world \<Rightarrow> 'au AzureMonitor \<Rightarrow> call list \<Rightarrow> error option \<times> 'au AzureMonitor \<times> call list" where
  "Init w a tr =
     (if ResourceId a = '''' then (Some (ErrorsNew ''resource_id must be configured''), a, tr)
      else (case NewAuthorizerFromEnvironment w of
              Inl err \<Rightarrow> (Some err, a, tr @ [CallNewAuthorizerFromEnvironment])
            | Inr au \<Rightarrow> (None, a\<lparr>authorizer := Some au\<rparr>, tr @ [CallNewAuthorizerFromEnvironment])))"

text \<open>
  \<^verbatim>\<open>a.authorizer.WithAuthorization()\<close> on a \<^verbatim>\<open>nil\<close> authorizer (a plugin whose
  \<^verbatim>\<open>Init\<close> did not succeed) panics.
\<close>

definition makeRequest ::
  "('au, 't) world \<Rightarrow> 'au AzureMonitor \<Rightarrow> call list \<Rightarrow> (error + Response) \<times> call list" where
  "makeRequest w a tr =
     (let url = ''https://management.azure.com/'' @ ResourceId a
                  @ ''/providers/microsoft.insights/metrics?api-version=2018-01-01''
      in case NewRequest w ''GET'' url of
           Inl err \<Rightarrow> (Inl err, tr)
         | Inr req \<Rightarrow>
             (case authorizer a of
                None \<Rightarrow> (Inl (Panic ''runtime error: invalid memory address or nil pointer dereference''), tr)
              | Some au \<Rightarrow>
                  (case Prepare w au req of
                     Inl err \<Rightarrow> (Inl err, tr @ [CallPrepare req])
                   | Inr req' \<Rightarrow> (Do w req', tr @ [CallPrepare req, CallDo req']))))"

subsection \<open>Bucketing by time stamp\<close>

text \<open>
  The body of the innermost loop. Reading a key that a map does not hold gives the
  \<^verbatim>\<open>nil\<close> map, and an assignment into the \<^verbatim>\<open>nil\<close> map panics.
\<close>

definition bucket_datum ::
  "string \<Rightarrow> buckets \<Rightarrow> AzureMonitorResponseTimeSeriesDatum \<Rightarrow> error + buckets" where
  "bucket_datum name fieldsByTimestamp datum =
     (let exists = (map_of fieldsByTimestamp (TimeStamp datum) \<noteq> None);
          fbt = (if \<not> exists then AList.update (TimeStamp datum) [] fieldsByTimestamp
                 else fieldsByTimestamp)
      in case map_of fbt (TimeStamp datum) of
           None \<Rightarrow> Inl (Panic ''assignment to entry in nil map'')
         | Some slot \<Rightarrow>
             Inr (AList.update (TimeStamp datum) (AList.update name (Average datum) slot) fbt))"

fun bucket_data ::
  "string \<Rightarrow> buckets \<Rightarrow> AzureMonitorResponseTimeSeriesDatum list \<Rightarrow> error + buckets" where
  "bucket_data name fbt [] = Inr fbt"
| "bucket_data name fbt (datum # rest) =
     (case bucket_datum name fbt datum of
        Inl p \<Rightarrow> Inl p
      | Inr fbt' \<Rightarrow> bucket_data name fbt' rest)"

fun bucket_series ::
  "string \<Rightarrow> buckets \<Rightarrow> AzureMonitorResponseTimeSeries list \<Rightarrow> error + buckets" where
  "bucket_series name fbt [] = Inr fbt"
| "bucket_series name fbt (ts # rest) =
     (case bucket_data name fbt (Data ts) of
        Inl p \<Rightarrow> Inl p
      | Inr fbt' \<Rightarrow> bucket_series name fbt' rest)"

fun bucket_values :: "buckets \<Rightarrow> AzureMonitorResponseValue list \<Rightarrow> error + buckets" where
  "bucket_values fbt [] = Inr fbt"
| "bucket_values fbt (v # rest) =
     (case bucket_series (Value (Name v)) fbt (TimeSeries v) of
        Inl p \<Rightarrow> Inl p
      | Inr fbt' \<Rightarrow> bucket_values fbt' rest)"

text \<open>The grouping pass of \<^verbatim>\<open>Gather\<close>, from the empty map.\<close>

definition fieldsByTimestamp :: "AzureMonitorResponse \<Rightarrow> error + buckets" where
  "fieldsByTimestamp monitorResponse = bucket_values [] (Values monitorResponse)"

text \<open>The second loop: one \<^verbatim>\<open>AddFields\<close> per entry whose key parses.\<close>

fun emit :: "('au, 't) world \<Rightarrow> tags \<Rightarrow> 't accumulator \<Rightarrow> buckets \<Rightarrow> 't accumulator" where
  "emit w tgs acc [] = acc"
| "emit w tgs acc ((ts, flds) # rest) =
     (case Parse w ts of
        Inl err \<Rightarrow> emit w tgs acc rest
      | Inr timestamp \<Rightarrow> emit w tgs (acc @ [AddFields ''azure_monitor'' flds tgs timestamp]) rest)"

definition Gather ::
  "('au, 't) world \<Rightarrow> 'au AzureMonitor \<Rightarrow> 't accumulator \<Rightarrow> call list
     \<Rightarrow> error option \<times> 't accumulator \<times> call list" where
  "Gather w a acc tr =
     (case makeRequest w a tr of
        (Inl err, tr') \<Rightarrow> (Some err, acc, tr')
      | (Inr resp, tr') \<Rightarrow>
          (case parseResponse w resp of
             Inl err \<Rightarrow> (Some err, acc, tr')
           | Inr monitorResponse \<Rightarrow>
               (let tgs = AList.update ''resource_id'' (ResourceId a) []
                in case fieldsByTimestamp monitorResponse of
                     Inl p \<Rightarrow> (Some p, acc, tr')
                   | Inr fbt \<Rightarrow> (None, emit w tgs acc (map_range w fbt), tr'))))"

subsection \<open>Vocabulary of the properties\<close>

text \<open>
  The data points of a response in the order the three nested loops visit them, each
  with the name of its metric: (name, time stamp, average).
\<close>

definition points_of_value :: "AzureMonitorResponseValue \<Rightarrow> (string \<times> string \<times> float64) list" where
  "points_of_value v =
     concat (map (\<lambda>ts. map (\<lambda>d. (Value (Name v), TimeStamp d, Average d)) (Data ts)) (TimeSeries v))"

definition points :: "AzureMonitorResponse \<Rightarrow> (string \<times> string \<times> float64) list" where
  "points m = concat (map points_of_value (Values m))"

text \<open>What one pass through the loop body does to the map when it does not panic.\<close>

definition put_point :: "buckets \<Rightarrow> string \<times> string \<times> float64 \<Rightarrow> buckets" where
  "put_point fbt p =
     (case p of (name, ts, avg) \<Rightarrow>
        AList.update ts
          (AList.update name avg (case map_of fbt ts of None \<Rightarrow> [] | Some slot \<Rightarrow> slot)) fbt)"

definition lookup2 :: "buckets \<Rightarrow> string \<Rightarrow> string \<Rightarrow> float64 option" where
  "lookup2 fbt ts name = (case map_of fbt ts of None \<Rightarrow> None | Some slot \<Rightarrow> map_of slot name)"

text \<open>The average of the last point of \<open>ps\<close> with this time stamp and this name.\<close>

definition last_average ::
  "(string \<times> string \<times> float64) list \<Rightarrow> string \<Rightarrow> string \<Rightarrow> float64 option" where
  "last_average ps ts name = map_of (rev (map (\<lambda>(n, t, v). ((n, t), v)) ps)) (name, ts)"

definition slots_ok :: "buckets \<Rightarrow> bool" where
  "slots_ok fbt \<longleftrightarrow> (\<forall>s \<in> snd ` set fbt. s \<noteq> [] \<and> distinct (map fst s))"

text \<open>The calls one entry of the map gives rise to in the second loop: none or one.\<close>

definition field_set :: "('au, 't) world \<Rightarrow> tags \<Rightarrow> string \<times> fields \<Rightarrow> 't acc_call list" where
  "field_set w tgs e =
     (case Parse w (fst e) of
        Inl err \<Rightarrow> []
      | Inr timestamp \<Rightarrow> [AddFields ''azure_monitor'' (snd e) tgs timestamp])"

subsection \<open>A concrete world\<close>

definition cpu_body :: string where
  \<open>cpu_body = ''{"value":[{"name":{"value":"Percentage CPU"},"timeseries":[{"data":[{"average":42.5,"timeStamp":"2024-01-01T00:00:00Z"}]}]}]}''\<close>

text \<open>What \<^verbatim>\<open>encoding/json\<close> decodes \<open>cpu_body\<close> to: absent fields keep their zero value.\<close>

definition cpu_response :: AzureMonitorResponse where
  "cpu_response =
     \<lparr>Cost = 0, Interval = [], Namespace = [], ResourceRegion = [], Timespan = [],
      Values =
        [\<lparr>DisplayDescription = [], ErrorCode = [], Id' = [],
          Name = \<lparr>LocalizedValue = [], Value = ''Percentage CPU''\<rparr>,
          TimeSeries =
            [\<lparr>Data = [\<lparr>Average = 42.5, TimeStamp = ''2024-01-01T00:00:00Z''\<rparr>],
              MetadataValues = []\<rparr>],
          Type = [], Unit = []\<rparr>]\<rparr>"

definition metric :: "string \<Rightarrow> (float64 \<times> string) list list \<Rightarrow> AzureMonitorResponseValue" where
  "metric name series =
     \<lparr>DisplayDescription = [], ErrorCode = [], Id' = [],
      Name = \<lparr>LocalizedValue = name, Value = name\<rparr>,
      TimeSeries =
        map (\<lambda>ds. \<lparr>Data = map (\<lambda>(avg, ts). \<lparr>Average = avg, TimeStamp = ts\<rparr>) ds,
                   MetadataValues = []\<rparr>) series,
      Type = ''Microsoft.Insights/metrics'', Unit = ''Percent''\<rparr>"

text \<open>
  Two metrics and one without any series; \<open>cpu\<close> reports midnight in both of its
  series, and once a time stamp that is no date.
\<close>

definition sample_response :: AzureMonitorResponse where
  "sample_response =
     \<lparr>Cost = 0, Interval = ''PT1M'', Namespace = ''Microsoft.Compute/virtualMachines'',
      ResourceRegion = ''westeurope'', Timespan = ''2024-01-01T00:00:00Z/2024-01-01T00:02:00Z'',
      Values =
        [metric ''cpu''
           [[(1, ''2024-01-01T00:00:00Z''), (2, ''2024-01-01T00:01:00Z'')],
            [(3, ''2024-01-01T00:00:00Z''), (9, ''not-a-date'')]],
         metric ''mem'' [[(50, ''2024-01-01T00:00:00Z'')]],
         metric ''disk'' []]\<rparr>"

definition sample_body :: string where
  "sample_body = ''sample''"

text \<open>
  A world in which every call succeeds: the server answers 200 with \<open>sample_body\<close>,
  times are seconds since 1970, and \<^verbatim>\<open>range\<close> walks a map from its last entry to its
  first.
\<close>

definition demo_world :: "(unit, int) world" where
  "demo_world =
     \<lparr>NewAuthorizerFromEnvironment = Inr (),
      NewRequest = (\<lambda>method url. Inr \<lparr>Method = method, URL = url, Header = []\<rparr>),
      Prepare = (\<lambda>au req. Inr (req\<lparr>Header := [(''Authorization'', ''Bearer token'')]\<rparr>)),
      Do = (\<lambda>req. Inr \<lparr>StatusCode = 200, Body = Inr sample_body\<rparr>),
      Decode = (\<lambda>body. if body = cpu_body then Inr cpu_response
                        else if body = sample_body then Inr sample_response
                        else Inl (LibraryError ''invalid character'')),
      Parse = (\<lambda>ts. if ts = ''2024-01-01T00:00:00Z'' then Inr 1704067200
                     else if ts = ''2024-01-01T00:01:00Z'' then Inr 1704067260
                     else Inl (LibraryError ''cannot parse'')),
      map_range = rev\<rparr>"

definition demo_plugin :: "unit AzureMonitor" where
  "demo_plugin = \<lparr>ResourceId = ''/subscriptions/s/vm'', authorizer = Some ()\<rparr>"

subsection \<open>A model of the two library calls that read text\<close>

text \<open>
  \<^verbatim>\<open>json.NewDecoder(r).Decode(&response)\<close> and \<^verbatim>\<open>time.Parse(time.RFC3339, ts)\<close> belong
  to Go's standard library. What follows describes, from the library's documentation
  and sources, what they answer on a fragment of their inputs; outside the fragment the
  description says \<open>Unmodelled\<close> and nothing is claimed. A world agrees with the
  description when its \<open>Decode\<close> and \<open>Parse\<close> answer as described wherever the
  description gives an answer (\<open>json_agrees\<close>, \<open>time_agrees\<close>).
\<close>

datatype 'a verdict = Rejected | Unmodelled | Accepted 'a

text \<open>
  The syntax tree of a JSON value. A number carries its value when a \<^verbatim>\<open>float64\<close>
  holds it exactly, and \<open>None\<close> when the library would have to round it.
\<close>

datatype tree =
    TNull
  | TBool bool
  | TNumber "float64 option"
  | TString string
  | TArray "tree list"
  | TObject "(string \<times> tree) list"

definition is_space :: "char \<Rightarrow> bool" where
  "is_space c \<longleftrightarrow> c = CHR 0x20 \<or> c = CHR 0x09 \<or> c = CHR 0x0D \<or> c = CHR 0x0A"

definition skip_space :: "string \<Rightarrow> string" where
  "skip_space s = dropWhile is_space s"

definition is_digit :: "char \<Rightarrow> bool" where
  "is_digit c \<longleftrightarrow> c \<in> set ''0123456789''"

definition digit_value :: "char \<Rightarrow> nat" where
  "digit_value c = length (takeWhile (\<lambda>d. d \<noteq> c) ''0123456789'')"

definition number_of_digits :: "string \<Rightarrow> nat" where
  "number_of_digits ds = foldl (\<lambda>n c. 10 * n + digit_value c) 0 ds"

text \<open>
  The value of the decimal \<open>m * 10 ^ e\<close>, negated when \<open>neg\<close>, if it is one of the
  numbers below that a \<^verbatim>\<open>float64\<close> holds exactly: an integer below \<open>2 ^ 53\<close>, or such
  an integer divided by a power of two up to \<open>2 ^ 1022\<close>. Minus zero is left out.
\<close>

definition float64_exact :: "bool \<Rightarrow> nat \<Rightarrow> int \<Rightarrow> float64 option" where
  "float64_exact neg m e =
     (if m = 0 then (if neg then None else Some 0)
      else if 0 \<le> e then
        (if e \<le> 15 then
           (if m * 10 ^ nat e < 2 ^ 53
            then Some ((if neg then - 1 else 1) * real (m * 10 ^ nat e)) else None)
         else None)
      else
        (if nat (- e) \<le> 1022 then
           (if 5 ^ nat (- e) dvd m then
              (if m div 5 ^ nat (- e) < 2 ^ 53
               then Some ((if neg then - 1 else 1) * (real (m div 5 ^ nat (- e)) / 2 ^ nat (- e)))
               else None)
            else None)
         else None))"

text \<open>
  A number, from its first character: an optional minus sign, \<^verbatim>\<open>0\<close> or digits that do
  not start with \<^verbatim>\<open>0\<close>, an optional fraction and an optional exponent.
\<close>

definition scan_number :: "string \<Rightarrow> (tree \<times> string) verdict" where
  "scan_number s =
     (let neg = (take 1 s = ''-'');
          s1 = (if neg then drop 1 s else s);
          ip = (if take 1 s1 = ''0'' then ''0'' else takeWhile is_digit s1);
          s2 = drop (length ip) s1;
          has_frac = (take 1 s2 = ''.'');
          fp = (if has_frac then takeWhile is_digit (drop 1 s2) else []);
          s3 = (if has_frac then drop (Suc (length fp)) s2 else s2);
          has_exp = (take 1 s3 = ''e'' \<or> take 1 s3 = ''E'');
          s4 = (if has_exp then drop 1 s3 else s3);
          eneg = (has_exp \<and> take 1 s4 = ''-'');
          s5 = (if has_exp \<and> (take 1 s4 = ''-'' \<or> take 1 s4 = ''+'') then drop 1 s4 else s4);
          ep = (if has_exp then takeWhile is_digit s5 else []);
          s6 = drop (length ep) s5
      in if ip = [] \<or> (has_frac \<and> fp = []) \<or> (has_exp \<and> ep = []) then Rejected
         else Accepted
                (TNumber (float64_exact neg (number_of_digits (ip @ fp))
                            ((if eneg then - int (number_of_digits ep) else int (number_of_digits ep))
                               - int (length fp))),
                 s6))"

definition scan_literal :: "string \<Rightarrow> tree \<Rightarrow> string \<Rightarrow> (tree \<times> string) verdict" where
  "scan_literal word t s =
     (if take (length word) s = word then Accepted (t, drop (length word) s) else Rejected)"

definition unescape :: "char \<Rightarrow> char option" where
  "unescape e =
     map_of [(CHR 0x22, CHR 0x22), (CHR 0x5C, CHR 0x5C), (CHR ''/'', CHR ''/''),
             (CHR ''b'', CHR 0x08), (CHR ''f'', CHR 0x0C), (CHR ''n'', CHR 0x0A),
             (CHR ''r'', CHR 0x0D), (CHR ''t'', CHR 0x09)] e"

text \<open>
  A string, from the character after its opening quote. A control character or an
  unknown escape is a syntax error; a \<^verbatim>\<open>\u\<close> escape and a byte outside ASCII are outside
  the fragment.
\<close>

fun scan_string :: "string \<Rightarrow> (string \<times> string) verdict" where
  "scan_string [] = Rejected"
| "scan_string (c # cs) =
     (if c = CHR 0x22 then Accepted ([], cs)
      else if c = CHR 0x5C then
        (case cs of
           [] \<Rightarrow> Rejected
         | e # cs' \<Rightarrow>
             if e = CHR ''u'' then Unmodelled
             else (case unescape e of
                     None \<Rightarrow> Rejected
                   | Some ch \<Rightarrow>
                       (case scan_string cs' of
                          Accepted (str, r) \<Rightarrow> Accepted (ch # str, r)
                        | Rejected \<Rightarrow> Rejected
                        | Unmodelled \<Rightarrow> Unmodelled)))
      else if (of_char c :: nat) < 32 then Rejected
      else if 128 \<le> (of_char c :: nat) then Unmodelled
      else (case scan_string cs of
              Accepted (str, r) \<Rightarrow> Accepted (c # str, r)
            | Rejected \<Rightarrow> Rejected
            | Unmodelled \<Rightarrow> Unmodelled))"

text \<open>
  The first JSON value of a text and what follows it. The first argument bounds the
  number of nested calls, the second counts the open brackets: the library refuses more
  than 10000 of them, the description stops at 1000.
\<close>

fun parse_value :: "nat \<Rightarrow> nat \<Rightarrow> string \<Rightarrow> (tree \<times> string) verdict"
  and parse_elements :: "nat \<Rightarrow> nat \<Rightarrow> string \<Rightarrow> (tree list \<times> string) verdict"
  and parse_members :: "nat \<Rightarrow> nat \<Rightarrow> string \<Rightarrow> ((string \<times> tree) list \<times> string) verdict"
where
  "parse_value 0 d s = Unmodelled"
| "parse_value (Suc n) d s =
     (case skip_space s of
        [] \<Rightarrow> Rejected
      | c # cs \<Rightarrow>
          if c = CHR 0x7B then
            (if 1000 \<le> d then Unmodelled
             else (case skip_space cs of
                     [] \<Rightarrow> Rejected
                   | c' # cs' \<Rightarrow>
                       if c' = CHR 0x7D then Accepted (TObject [], cs')
                       else (case parse_members n (Suc d) (c' # cs') of
                               Accepted (ms, r) \<Rightarrow> Accepted (TObject ms, r)
                             | Rejected \<Rightarrow> Rejected
                             | Unmodelled \<Rightarrow> Unmodelled)))
          else if c = CHR 0x5B then
            (if 1000 \<le> d then Unmodelled
             else (case skip_space cs of
                     [] \<Rightarrow> Rejected
                   | c' # cs' \<Rightarrow>
                       if c' = CHR 0x5D then Accepted (TArray [], cs')
                       else (case parse_elements n (Suc d) (c' # cs') of
                               Accepted (ts, r) \<Rightarrow> Accepted (TArray ts, r)
                             | Rejected \<Rightarrow> Rejected
                             | Unmodelled \<Rightarrow> Unmodelled)))
          else if c = CHR 0x22 then
            (case scan_string cs of
               Accepted (str, r) \<Rightarrow> Accepted (TString str, r)
             | Rejected \<Rightarrow> Rejected
             | Unmodelled \<Rightarrow> Unmodelled)
          else if c = CHR ''t'' then scan_literal ''true'' (TBool True) (c # cs)
          else if c = CHR ''f'' then scan_literal ''false'' (TBool False) (c # cs)
          else if c = CHR ''n'' then scan_literal ''null'' TNull (c # cs)
          else if c = CHR ''-'' \<or> is_digit c then scan_number (c # cs)
          else Rejected)"
| "parse_elements 0 d s = Unmodelled"
| "parse_elements (Suc n) d s =
     (case parse_value n d s of
        Accepted (t, r) \<Rightarrow>
          (case skip_space r of
             [] \<Rightarrow> Rejected
           | c # cs \<Rightarrow>
               if c = CHR '','' then
                 (case parse_elements n d cs of
                    Accepted (ts, r') \<Rightarrow> Accepted (t # ts, r')
                  | Rejected \<Rightarrow> Rejected
                  | Unmodelled \<Rightarrow> Unmodelled)
               else if c = CHR 0x5D then Accepted ([t], cs)
               else Rejected)
      | Rejected \<Rightarrow> Rejected
      | Unmodelled \<Rightarrow> Unmodelled)"
| "parse_members 0 d s = Unmodelled"
| "parse_members (Suc n) d s =
     (case skip_space s of
        [] \<Rightarrow> Rejected
      | c # cs \<Rightarrow>
          if c \<noteq> CHR 0x22 then Rejected
          else (case scan_string cs of
                  Accepted (k, r) \<Rightarrow>
                    (case skip_space r of
                       [] \<Rightarrow> Rejected
                     | c1 # r1 \<Rightarrow>
                         if c1 \<noteq> CHR '':'' then Rejected
                         else (case parse_value n d r1 of
                                 Accepted (t, r2) \<Rightarrow>
                                   (case skip_space r2 of
                                      [] \<Rightarrow> Rejected
                                    | c2 # r3 \<Rightarrow>
                                        if c2 = CHR '','' then
                                          (case parse_members n d r3 of
                                             Accepted (ms, r4) \<Rightarrow> Accepted ((k, t) # ms, r4)
                                           | Rejected \<Rightarrow> Rejected
                                           | Unmodelled \<Rightarrow> Unmodelled)
                                        else if c2 = CHR 0x7D then Accepted ([(k, t)], r3)
                                        else Rejected)
                               | Rejected \<Rightarrow> Rejected
                               | Unmodelled \<Rightarrow> Unmodelled))
                | Rejected \<Rightarrow> Rejected
                | Unmodelled \<Rightarrow> Unmodelled))"

fun fuel_of :: "string \<Rightarrow> nat" where
  "fuel_of [] = Suc (Suc 0)"
| "fuel_of (c # cs) = Suc (Suc (fuel_of cs))"

definition first_value :: "string \<Rightarrow> (tree \<times> string) verdict" where
  "first_value body = parse_value (fuel_of body) 0 body"

text \<open>A text is JSON when it is one value between white space.\<close>

definition valid_json :: "string \<Rightarrow> bool" where
  "valid_json body \<longleftrightarrow>
     (case first_value body of Accepted (t, rest) \<Rightarrow> skip_space rest = [] | _ \<Rightarrow> False)"

text \<open>
  Storing a value. Two verdicts combine to the worse one, \<open>Unmodelled\<close> before
  \<open>Rejected\<close>: a type error does not stop the library, which goes on and reports the
  first one at the end.
\<close>

fun both :: "'a verdict \<Rightarrow> 'b verdict \<Rightarrow> ('a \<times> 'b) verdict" where
  "both Unmodelled y = Unmodelled"
| "both Rejected Unmodelled = Unmodelled"
| "both Rejected y = Rejected"
| "both (Accepted a) Unmodelled = Unmodelled"
| "both (Accepted a) Rejected = Rejected"
| "both (Accepted a) (Accepted b) = Accepted (a, b)"

fun all_of :: "'a verdict list \<Rightarrow> 'a list verdict" where
  "all_of [] = Accepted []"
| "all_of (v # vs) = map_verdict (\<lambda>(a, as). a # as) (both v (all_of vs))"

text \<open>
  A key names a field when the two are equal up to the case of their letters. A key
  that occurs twice for one field makes the library store into a value that is already
  set; that is outside the fragment.
\<close>

definition upper :: "char \<Rightarrow> char" where
  "upper c =
     (case map_of (zip ''abcdefghijklmnopqrstuvwxyz'' ''ABCDEFGHIJKLMNOPQRSTUVWXYZ'') c of
        None \<Rightarrow> c
      | Some u \<Rightarrow> u)"

definition named :: "string \<Rightarrow> (string \<times> tree) list \<Rightarrow> tree list" where
  "named f ms = map snd (filter (\<lambda>m. map upper (fst m) = map upper f) ms)"

definition field :: "string \<Rightarrow> (tree \<Rightarrow> 'a verdict) \<Rightarrow> 'a \<Rightarrow> (string \<times> tree) list \<Rightarrow> 'a verdict" where
  "field f dec zero ms =
     (case named f ms of
        [] \<Rightarrow> Accepted zero
      | t # ts \<Rightarrow> (case ts of [] \<Rightarrow> dec t | _ # _ \<Rightarrow> Unmodelled))"

definition dec_string :: "tree \<Rightarrow> string verdict" where
  "dec_string t = (case t of TString s \<Rightarrow> Accepted s | TNull \<Rightarrow> Accepted [] | _ \<Rightarrow> Rejected)"

definition dec_float64 :: "tree \<Rightarrow> float64 verdict" where
  "dec_float64 t =
     (case t of
        TNumber x \<Rightarrow> (case x of None \<Rightarrow> Unmodelled | Some r \<Rightarrow> Accepted r)
      | TNull \<Rightarrow> Accepted 0
      | _ \<Rightarrow> Rejected)"

definition dec_slice :: "(tree \<Rightarrow> 'a verdict) \<Rightarrow> tree \<Rightarrow> 'a list verdict" where
  "dec_slice dec t =
     (case t of TArray ts \<Rightarrow> all_of (map dec ts) | TNull \<Rightarrow> Accepted [] | _ \<Rightarrow> Rejected)"

definition dec_struct :: "((string \<times> tree) list \<Rightarrow> 'a verdict) \<Rightarrow> 'a \<Rightarrow> tree \<Rightarrow> 'a verdict" where
  "dec_struct dec zero t =
     (case t of TObject ms \<Rightarrow> dec ms | TNull \<Rightarrow> Accepted zero | _ \<Rightarrow> Rejected)"

text \<open>A value stored in an \<^verbatim>\<open>interface{}\<close>.\<close>

fun to_interface :: "tree \<Rightarrow> json verdict" where
  "to_interface TNull = Accepted JNull"
| "to_interface (TBool b) = Accepted (JBool b)"
| "to_interface (TNumber x) = (case x of None \<Rightarrow> Unmodelled | Some r \<Rightarrow> Accepted (JNumber r))"
| "to_interface (TString s) = Accepted (JString s)"
| "to_interface (TArray ts) = map_verdict JArray (all_of (map to_interface ts))"
| "to_interface (TObject ms) =
     (if distinct (map fst ms)
      then map_verdict JObject
             (all_of (map (\<lambda>m. map_verdict (Pair (fst m)) (to_interface (snd m))) ms))
      else Unmodelled)"

definition dec_map :: "tree \<Rightarrow> (string \<times> json) list verdict" where
  "dec_map t =
     (case to_interface t of
        Accepted j \<Rightarrow> (case j of JObject ms \<Rightarrow> Accepted ms | JNull \<Rightarrow> Accepted [] | _ \<Rightarrow> Rejected)
      | Rejected \<Rightarrow> Rejected
      | Unmodelled \<Rightarrow> Unmodelled)"

text \<open>The structs of the response model, field by field, with their zero values.\<close>

definition dec_name :: "(string \<times> tree) list \<Rightarrow> AzureMonitorResponseValueName verdict" where
  "dec_name ms =
     map_verdict (\<lambda>(l, v). \<lparr>LocalizedValue = l, Value = v\<rparr>)
       (both (field ''LocalizedValue'' dec_string [] ms) (field ''Value'' dec_string [] ms))"

definition dec_datum :: "(string \<times> tree) list \<Rightarrow> AzureMonitorResponseTimeSeriesDatum verdict" where
  "dec_datum ms =
     map_verdict (\<lambda>(a, t). \<lparr>Average = a, TimeStamp = t\<rparr>)
       (both (field ''Average'' dec_float64 0 ms) (field ''TimeStamp'' dec_string [] ms))"

definition dec_series :: "(string \<times> tree) list \<Rightarrow> AzureMonitorResponseTimeSeries verdict" where
  "dec_series ms =
     map_verdict (\<lambda>(d, mv). \<lparr>Data = d, MetadataValues = mv\<rparr>)
       (both (field ''Data''
                (dec_slice (dec_struct dec_datum \<lparr>Average = 0, TimeStamp = []\<rparr>)) [] ms)
             (field ''MetadataValues'' (dec_slice dec_map) [] ms))"

definition zero_value :: AzureMonitorResponseValue where
  "zero_value =
     \<lparr>DisplayDescription = [], ErrorCode = [], Id' = [],
      Name = \<lparr>LocalizedValue = [], Value = []\<rparr>, TimeSeries = [], Type = [], Unit = []\<rparr>"

definition dec_value :: "(string \<times> tree) list \<Rightarrow> AzureMonitorResponseValue verdict" where
  "dec_value ms =
     map_verdict
       (\<lambda>(dd, ec, i, n, ts, ty, u).
          \<lparr>DisplayDescription = dd, ErrorCode = ec, Id' = i, Name = n, TimeSeries = ts,
           Type = ty, Unit = u\<rparr>)
       (both (field ''DisplayDescription'' dec_string [] ms)
       (both (field ''ErrorCode'' dec_string [] ms)
       (both (field ''Id'' dec_string [] ms)
       (both (field ''Name'' (dec_struct dec_name \<lparr>LocalizedValue = [], Value = []\<rparr>)
                \<lparr>LocalizedValue = [], Value = []\<rparr> ms)
       (both (field ''TimeSeries''
                (dec_slice (dec_struct dec_series \<lparr>Data = [], MetadataValues = []\<rparr>)) [] ms)
       (both (field ''Type'' dec_string [] ms)
             (field ''Unit'' dec_string [] ms)))))))"

definition zero_response :: AzureMonitorResponse where
  "zero_response =
     \<lparr>Cost = 0, Interval = [], Namespace = [], ResourceRegion = [], Timespan = [], Values = []\<rparr>"

definition dec_response :: "(string \<times> tree) list \<Rightarrow> AzureMonitorResponse verdict" where
  "dec_response ms =
     map_verdict
       (\<lambda>(c, i, n, rr, t, v).
          \<lparr>Cost = c, Interval = i, Namespace = n, ResourceRegion = rr, Timespan = t, Values = v\<rparr>)
       (both (field ''Cost'' dec_float64 0 ms)
       (both (field ''Interval'' dec_string [] ms)
       (both (field ''Namespace'' dec_string [] ms)
       (both (field ''ResourceRegion'' dec_string [] ms)
       (both (field ''Timespan'' dec_string [] ms)
             (field ''Value'' (dec_slice (dec_struct dec_value zero_value)) [] ms))))))"

text \<open>
  \<^verbatim>\<open>Decoder.Decode\<close> into a fresh response: it reads the first JSON value of the text,
  a syntax error in which is its error, and stores that value; it does not look at what
  follows the value.
\<close>

definition json_Decode :: "string \<Rightarrow> AzureMonitorResponse verdict" where
  "json_Decode body =
     (case first_value body of
        Accepted (t, rest) \<Rightarrow> dec_struct dec_response zero_response t
      | Rejected \<Rightarrow> Rejected
      | Unmodelled \<Rightarrow> Unmodelled)"

definition json_agrees :: "('au, 't) world \<Rightarrow> bool" where
  "json_agrees w \<longleftrightarrow>
     (\<forall>body. case json_Decode body of
               Accepted m \<Rightarrow> Decode w body = Inr m
             | Rejected \<Rightarrow> isl (Decode w body)
             | Unmodelled \<Rightarrow> True)"

text \<open>
  The time \<^verbatim>\<open>time.Parse\<close> returns, by its date and clock in UTC. The fragment: a text
  that does not start with four digits is refused; a text of the shape
  \<^verbatim>\<open>dddd-dd-ddTdd:dd:ddZ\<close> is that date and clock if they exist and is refused if not.
\<close>

record Time =
  Year :: nat
  Month :: nat
  Day :: nat
  Hour :: nat
  Minute :: nat
  Second :: nat

definition daysIn :: "nat \<Rightarrow> nat \<Rightarrow> nat" where
  "daysIn month year =
     (if month = 2 then (if year mod 4 = 0 \<and> (year mod 100 \<noteq> 0 \<or> year mod 400 = 0) then 29 else 28)
      else if month = 4 \<or> month = 6 \<or> month = 9 \<or> month = 11 then 30
      else 31)"

definition rfc3339_shape :: "string \<Rightarrow> bool" where
  "rfc3339_shape s \<longleftrightarrow>
     length s = 20 \<and>
     list_all is_digit (take 4 s) \<and> s ! 4 = CHR ''-'' \<and>
     list_all is_digit (take 2 (drop 5 s)) \<and> s ! 7 = CHR ''-'' \<and>
     list_all is_digit (take 2 (drop 8 s)) \<and> s ! 10 = CHR ''T'' \<and>
     list_all is_digit (take 2 (drop 11 s)) \<and> s ! 13 = CHR '':'' \<and>
     list_all is_digit (take 2 (drop 14 s)) \<and> s ! 16 = CHR '':'' \<and>
     list_all is_digit (take 2 (drop 17 s)) \<and> s ! 19 = CHR ''Z''"

definition time_Parse :: "string \<Rightarrow> Time verdict" where
  "time_Parse s =
     (if length s < 4 \<or> \<not> list_all is_digit (take 4 s) then Rejected
      else if rfc3339_shape s then
        (let t = \<lparr>Year = number_of_digits (take 4 s),
                  Month = number_of_digits (take 2 (drop 5 s)),
                  Day = number_of_digits (take 2 (drop 8 s)),
                  Hour = number_of_digits (take 2 (drop 11 s)),
                  Minute = number_of_digits (take 2 (drop 14 s)),
                  Second = number_of_digits (take 2 (drop 17 s))\<rparr>
         in if 1 \<le> Month t \<and> Month t \<le> 12 \<and> 1 \<le> Day t \<and> Day t \<le> daysIn (Month t) (Year t)
               \<and> Hour t < 24 \<and> Minute t < 60 \<and> Second t < 60
            then Accepted t else Rejected)
      else Unmodelled)"

definition time_agrees :: "('au, Time) world \<Rightarrow> bool" where
  "time_agrees w \<longleftrightarrow>
     (\<forall>s. case time_Parse s of
            Accepted t \<Rightarrow> Parse w s = Inr t
          | Rejected \<Rightarrow> isl (Parse w s)
          | Unmodelled \<Rightarrow> True)"

text \<open>
  A world whose decoder and time parser are the descriptions above; where they give no
  answer it reports an error.
\<close>

definition go_world :: "(unit, Time) world" where
  "go_world =
     \<lparr>NewAuthorizerFromEnvironment = Inr (),
      NewRequest = (\<lambda>method url. Inr \<lparr>Method = method, URL = url, Header = []\<rparr>),
      Prepare = (\<lambda>au req. Inr (req\<lparr>Header := [(''Authorization'', ''Bearer token'')]\<rparr>)),
      Do = (\<lambda>req. Inr \<lparr>StatusCode = 200, Body = Inr cpu_body\<rparr>),
      Decode = (\<lambda>body. case json_Decode body of
                          Accepted m \<Rightarrow> Inr m
                        | Rejected \<Rightarrow> Inl (LibraryError ''json'')
                        | Unmodelled \<Rightarrow> Inl (LibraryError ''json'')),
      Parse = (\<lambda>ts. case time_Parse ts of
                      Accepted t \<Rightarrow> Inr t
                    | Rejected \<Rightarrow> Inl (LibraryError ''parsing time'')
                    | Unmodelled \<Rightarrow> Inl (LibraryError ''parsing time'')),
      map_range = rev\<rparr>"

section \<open>Properties\<close>

subsection \<open>The three loops as one fold\<close>

lemma bucket_datum_put:
  "bucket_datum name fbt d = Inr (put_point fbt (name, TimeStamp d, Average d))"
  by (auto simp: bucket_datum_def put_point_def Let_def AList.update_conv' split: option.splits)

lemma bucket_data_foldl:
  "bucket_data name fbt ds = Inr (foldl put_point fbt (map (\<lambda>d. (name, TimeStamp d, Average d)) ds))"
  by (induction ds arbitrary: fbt) (simp_all add: bucket_datum_put)

lemma bucket_series_foldl:
  "bucket_series name fbt tss =
     Inr (foldl put_point fbt
            (concat (map (\<lambda>ts. map (\<lambda>d. (name, TimeStamp d, Average d)) (Data ts)) tss)))"
  by (induction tss arbitrary: fbt) (simp_all add: bucket_data_foldl)

lemma bucket_values_foldl:
  "bucket_values fbt vs = Inr (foldl put_point fbt (concat (map points_of_value vs)))"
  by (induction vs arbitrary: fbt) (simp_all add: bucket_series_foldl points_of_value_def)

lemma fieldsByTimestamp_foldl:
  "fieldsByTimestamp m = Inr (foldl put_point [] (points m))"
  by (simp add: fieldsByTimestamp_def points_def bucket_values_foldl)

subsection \<open>What the fold keeps\<close>

lemma keys_put_point: "fst ` set (put_point fbt (n, t, v)) = insert t (fst ` set fbt)"
  by (simp add: put_point_def AList.dom_update)

lemma distinct_put_point: "distinct (map fst fbt) \<Longrightarrow> distinct (map fst (put_point fbt p))"
  by (cases p) (simp add: put_point_def AList.distinct_update)

lemma lookup2_put_point:
  "lookup2 (put_point fbt (n, t, v)) ts name =
     (if ts = t \<and> name = n then Some v else lookup2 fbt ts name)"
  by (auto simp: lookup2_def put_point_def AList.update_conv' split: option.splits)

lemma set_update_subset: "set (AList.update k v al) \<subseteq> insert (k, v) (set al)"
  by (induction al) auto

lemma slots_ok_put_point:
  assumes "slots_ok fbt"
  shows "slots_ok (put_point fbt p)"
proof -
  obtain n t v where p: "p = (n, t, v)" by (cases p)
  let ?s0 = "case map_of fbt t of None \<Rightarrow> [] | Some slot \<Rightarrow> slot"
  have d0: "distinct (map fst ?s0)"
  proof (cases "map_of fbt t")
    case None
    then show ?thesis by simp
  next
    case (Some slot)
    then have "(t, slot) \<in> set fbt" by (rule map_of_SomeD)
    then have "slot \<in> snd ` set fbt" by force
    with assms have "distinct (map fst slot)" unfolding slots_ok_def by blast
    with Some show ?thesis by simp
  qed
  have new: "AList.update n v ?s0 \<noteq> [] \<and> distinct (map fst (AList.update n v ?s0))"
    using d0 by (simp add: AList.distinct_update)
  have sub: "set (put_point fbt p) \<subseteq> insert (t, AList.update n v ?s0) (set fbt)"
    unfolding p put_point_def by (simp add: set_update_subset)
  show ?thesis
    unfolding slots_ok_def
  proof
    fix s
    assume "s \<in> snd ` set (put_point fbt p)"
    then obtain k where "(k, s) \<in> set (put_point fbt p)" by auto
    with sub have "(k, s) = (t, AList.update n v ?s0) \<or> (k, s) \<in> set fbt" by blast
    then show "s \<noteq> [] \<and> distinct (map fst s)"
    proof
      assume "(k, s) = (t, AList.update n v ?s0)"
      with new show ?thesis by simp
    next
      assume "(k, s) \<in> set fbt"
      then have "s \<in> snd ` set fbt" by (rule image_eqI [rotated]) simp
      with assms show ?thesis unfolding slots_ok_def by (rule bspec)
    qed
  qed
qed

lemma foldl_put_point_inv:
  "distinct (map fst fbt) \<Longrightarrow> slots_ok fbt \<Longrightarrow>
   distinct (map fst (foldl put_point fbt ps)) \<and> slots_ok (foldl put_point fbt ps)"
  by (induction ps arbitrary: fbt) (simp_all add: distinct_put_point slots_ok_put_point)

lemma keys_foldl_put_point:
  "fst ` set (foldl put_point fbt ps) = fst ` set fbt \<union> (\<lambda>p. fst (snd p)) ` set ps"
proof (induction ps arbitrary: fbt)
  case Nil
  show ?case by simp
next
  case (Cons p ps)
  obtain n t v where p: "p = (n, t, v)" by (cases p)
  have "fst ` set (foldl put_point fbt (p # ps))
          = insert t (fst ` set fbt) \<union> (\<lambda>p. fst (snd p)) ` set ps"
    by (simp add: Cons.IH p keys_put_point)
  then show ?case by (simp add: p)
qed

lemma last_average_snoc:
  "last_average (ps @ [(n, t, v)]) ts name =
     (if ts = t \<and> name = n then Some v else last_average ps ts name)"
  by (simp add: last_average_def)

lemma lookup2_foldl_put_point:
  "lookup2 (foldl put_point fbt ps) ts name =
     (case last_average ps ts name of Some v \<Rightarrow> Some v | None \<Rightarrow> lookup2 fbt ts name)"
proof (induction ps rule: rev_induct)
  case Nil
  show ?case by (simp add: last_average_def)
next
  case (snoc p ps)
  obtain n t v where p: "p = (n, t, v)" by (cases p)
  have "lookup2 (foldl put_point fbt (ps @ [p])) ts name =
          (if ts = t \<and> name = n then Some v else lookup2 (foldl put_point fbt ps) ts name)"
    by (simp add: p lookup2_put_point)
  then show ?case
    by (simp add: p last_average_snoc snoc.IH)
qed

subsection \<open>What the described library calls answer\<close>

lemma json_agrees_Accepted:
  assumes "json_agrees w" and "json_Decode body = Accepted m"
  shows "Decode w body = Inr m"
proof -
  from assms(1) have "case json_Decode body of
                        Accepted m \<Rightarrow> Decode w body = Inr m
                      | Rejected \<Rightarrow> isl (Decode w body)
                      | Unmodelled \<Rightarrow> True"
    unfolding json_agrees_def by (rule spec)
  with assms(2) show ?thesis by simp
qed


lemma time_agrees_Accepted:
  assumes "time_agrees w" and "time_Parse s = Accepted t"
  shows "Parse w s = Inr t"
proof -
  from assms(1) have "case time_Parse s of
                        Accepted t \<Rightarrow> Parse w s = Inr t
                      | Rejected \<Rightarrow> isl (Parse w s)
                      | Unmodelled \<Rightarrow> True"
    unfolding time_agrees_def by (rule spec)
  with assms(2) show ?thesis by simp
qed


lemma range_ok_go_world: "range_ok go_world"
  by (simp add: range_ok_def go_world_def)

lemma json_agrees_go_world: "json_agrees go_world"
  by (simp add: json_agrees_def go_world_def split: verdict.splits)

lemma time_agrees_go_world: "time_agrees go_world"
  by (simp add: time_agrees_def go_world_def split: verdict.splits)

lemmas json_simps =
  json_Decode_def first_value_def skip_space_def is_space_def
  scan_number_def Let_def is_digit_def float64_exact_def number_of_digits_def digit_value_def
  scan_literal_def unescape_def dec_struct_def dec_response_def field_def named_def upper_def
  dec_string_def dec_float64_def dec_slice_def dec_value_def dec_name_def dec_series_def
  dec_datum_def dec_map_def zero_value_def zero_response_def

lemma cpu_body_decodes: "json_Decode cpu_body = Accepted cpu_response"
  by (simp add: json_simps cpu_body_def cpu_response_def)




lemma array_rejected: "valid_json ''[]'' \<and> json_Decode ''[]'' = Rejected"
  by (simp add: valid_json_def json_Decode_def first_value_def skip_space_def is_space_def
        dec_struct_def)

lemma midnight_parses:
  "time_Parse ''2024-01-01T00:00:00Z''
     = Accepted \<lparr>Year = 2024, Month = 1, Day = 1, Hour = 0, Minute = 0, Second = 0\<rparr>"
  by (simp add: time_Parse_def rfc3339_shape_def is_digit_def number_of_digits_def
        digit_value_def daysIn_def Let_def)

subsection \<open>Text after the first value\<close>






lemma drop_takeWhile: "drop (length (takeWhile P xs)) xs = dropWhile P xs"
  by (induction xs) auto
















subsection \<open>How parseResponse classifies failures\<close>




subsection \<open>Init\<close>

text \<open>
  C8. With an empty \<^verbatim>\<open>resource_id\<close>, \<^verbatim>\<open>Init\<close> returns the configuration error, leaves the
  plugin as it was and has made no outside call: the credential library is not asked.
  With a resource id that is not empty the check passes and the one outside call made is
  the acquisition of the credential, whose outcome decides the result.
\<close>

theorem Init_resource_id_check:
  "(ResourceId a = [] \<longrightarrow>
      Init w a tr = (Some (ErrorsNew ''resource_id must be configured''), a, tr)) \<and>
   (ResourceId a \<noteq> [] \<longrightarrow>
      Init w a tr =
        (case NewAuthorizerFromEnvironment w of
           Inl err \<Rightarrow> (Some err, a, tr @ [CallNewAuthorizerFromEnvironment])
         | Inr au \<Rightarrow> (None, a\<lparr>authorizer := Some au\<rparr>, tr @ [CallNewAuthorizerFromEnvironment])))"
  by (simp add: Init_def)

theorem Init_resource_id_check_witness:
  "Init demo_world \<lparr>ResourceId = [], authorizer = None\<rparr> []
     = (Some (ErrorsNew ''resource_id must be configured''), \<lparr>ResourceId = [], authorizer = None\<rparr>, []) \<and>
   Init demo_world \<lparr>ResourceId = ''/subscriptions/s/vm'', authorizer = None\<rparr> []
     = (None, demo_plugin, [CallNewAuthorizerFromEnvironment])"
  using Init_resource_id_check [of "\<lparr>ResourceId = [], authorizer = None\<rparr>" demo_world "[]"]
        Init_resource_id_check
          [of "\<lparr>ResourceId = ''/subscriptions/s/vm'', authorizer = None\<rparr>" demo_world "[]"]
  by (simp add: demo_world_def demo_plugin_def)

subsection \<open>A failed cycle emits nothing\<close>

text \<open>
  C5. When the request fails, or the request succeeds and \<^verbatim>\<open>parseResponse\<close> fails,
  \<^verbatim>\<open>Gather\<close> returns that very error and the accumulator is the one it was given: no
  \<^verbatim>\<open>AddFields\<close> call has been made.
\<close>

theorem Gather_failure_emits_nothing:
  "(makeRequest w a tr = (Inl e, tr') \<longrightarrow> Gather w a acc tr = (Some e, acc, tr')) \<and>
   (makeRequest w a tr = (Inr resp, tr') \<and> parseResponse w resp = Inl e \<longrightarrow>
      Gather w a acc tr = (Some e, acc, tr'))"
  by (simp add: Gather_def)

theorem Gather_failure_emits_nothing_witness:
  "fst (makeRequest (demo_world\<lparr>Do := \<lambda>req. Inl (LibraryError ''i/o timeout'')\<rparr>) demo_plugin [])
     = Inl (LibraryError ''i/o timeout'') \<and>
   fst (Gather (demo_world\<lparr>Do := \<lambda>req. Inl (LibraryError ''i/o timeout'')\<rparr>) demo_plugin [] [])
     = Some (LibraryError ''i/o timeout'') \<and>
   fst (snd (Gather (demo_world\<lparr>Do := \<lambda>req. Inl (LibraryError ''i/o timeout'')\<rparr>) demo_plugin [] []))
     = [] \<and>
   fst (makeRequest (demo_world\<lparr>Do := \<lambda>req. Inr \<lparr>StatusCode = 503, Body = Inr ''busy''\<rparr>\<rparr>) demo_plugin [])
     = Inr \<lparr>StatusCode = 503, Body = Inr ''busy''\<rparr> \<and>
   fst (Gather (demo_world\<lparr>Do := \<lambda>req. Inr \<lparr>StatusCode = 503, Body = Inr ''busy''\<rparr>\<rparr>) demo_plugin [] [])
     = Some (AzureMonitorError
              (''Azure monitor request returned error. Status 503:'' @ [CHR 0x0A] @ ''busy'')) \<and>
   fst (snd (Gather (demo_world\<lparr>Do := \<lambda>req. Inr \<lparr>StatusCode = 503, Body = Inr ''busy''\<rparr>\<rparr>)
               demo_plugin [] []))
     = []"
proof -
  let ?w1 = "demo_world\<lparr>Do := \<lambda>req. Inl (LibraryError ''i/o timeout'')\<rparr>"
  let ?r2 = "\<lparr>StatusCode = 503, Body = Inr ''busy''\<rparr>"
  let ?w2 = "demo_world\<lparr>Do := \<lambda>req. Inr ?r2\<rparr>"
  let ?e2 = "AzureMonitorError
               (''Azure monitor request returned error. Status 503:'' @ [CHR 0x0A] @ ''busy'')"
  have f1: "fst (makeRequest ?w1 demo_plugin []) = Inl (LibraryError ''i/o timeout'')"
    by (simp add: makeRequest_def Let_def demo_world_def demo_plugin_def)
  then have m1: "makeRequest ?w1 demo_plugin []
                   = (Inl (LibraryError ''i/o timeout''), snd (makeRequest ?w1 demo_plugin []))"
    by (simp add: prod_eq_iff)
  have f2: "fst (makeRequest ?w2 demo_plugin []) = Inr ?r2"
    by (simp add: makeRequest_def Let_def demo_world_def demo_plugin_def)
  then have m2: "makeRequest ?w2 demo_plugin [] = (Inr ?r2, snd (makeRequest ?w2 demo_plugin []))"
    by (simp add: prod_eq_iff)
  have p2: "parseResponse ?w2 ?r2 = Inl ?e2"
    by (simp add: parseResponse_def formatInt_def formatNat.simps)
  have g1: "Gather ?w1 demo_plugin [] []
              = (Some (LibraryError ''i/o timeout''), [], snd (makeRequest ?w1 demo_plugin []))"
    using Gather_failure_emits_nothing [THEN conjunct1, rule_format, OF m1] .
  have g2: "Gather ?w2 demo_plugin [] [] = (Some ?e2, [], snd (makeRequest ?w2 demo_plugin []))"
    using Gather_failure_emits_nothing [THEN conjunct2, rule_format, OF conjI [OF m2 p2]] .
  show ?thesis
    by (simp only: f1 f2 g1 g2 fst_conv snd_conv simp_thms)
qed

subsection \<open>The map built from the empty map\<close>

lemma buckets_distinct: "distinct (map fst (foldl put_point [] ps))"
  using foldl_put_point_inv [of "[]" ps] by (simp add: slots_ok_def)

lemma buckets_slots_ok: "slots_ok (foldl put_point [] ps)"
  using foldl_put_point_inv [of "[]" ps] by (simp add: slots_ok_def)

lemma buckets_keys: "fst ` set (foldl put_point [] ps) = (\<lambda>p. fst (snd p)) ` set ps"
  by (simp add: keys_foldl_put_point)

lemma buckets_lookup2: "lookup2 (foldl put_point [] ps) ts name = last_average ps ts name"
  unfolding lookup2_foldl_put_point by (simp add: lookup2_def split: option.splits)

lemma buckets_entry:
  assumes "(ts, flds) \<in> set (foldl put_point [] ps)"
  shows "map_of flds name = last_average ps ts name"
proof -
  have "map_of (foldl put_point [] ps) ts = Some flds"
    using assms buckets_distinct [of ps] by simp
  then have "lookup2 (foldl put_point [] ps) ts name = map_of flds name"
    by (simp add: lookup2_def)
  then show ?thesis
    by (simp add: buckets_lookup2)
qed

lemma last_average_in_points:
  assumes "last_average ps ts name = Some v"
  shows "(name, ts, v) \<in> set ps"
proof -
  have "((name, ts), v) \<in> set (rev (map (\<lambda>(n, t, v). ((n, t), v)) ps))"
    using assms unfolding last_average_def by (rule map_of_SomeD)
  then show ?thesis by auto
qed

lemma last_average_last:
  assumes "\<forall>v'. (name, ts, v') \<notin> set post"
  shows "last_average (pre @ (name, ts, v) # post) ts name = Some v"
proof -
  have "last_average post ts name = None"
  proof (cases "last_average post ts name")
    case None
    then show ?thesis .
  next
    case (Some v')
    then have "(name, ts, v') \<in> set post" by (rule last_average_in_points)
    with assms show ?thesis by blast
  qed
  then have "map_of (rev (map (\<lambda>(n, t, v). ((n, t), v)) post)) (name, ts) = None"
    by (simp add: last_average_def)
  then show ?thesis
    by (simp add: last_average_def map_add_def)
qed

lemma one_entry_per_key:
  "distinct (map fst xs) \<Longrightarrow> map_of xs k = Some v \<Longrightarrow> length (filter (\<lambda>e. fst e = k) xs) = 1"
proof (induction xs)
  case Nil
  then show ?case by simp
next
  case (Cons x xs)
  show ?case
  proof (cases "fst x = k")
    case True
    from Cons.prems(1) have nin: "fst x \<notin> fst ` set xs" by simp
    have "\<forall>e \<in> set xs. fst e \<noteq> k"
    proof
      fix e
      assume "e \<in> set xs"
      then have mem: "fst e \<in> fst ` set xs" by (rule imageI)
      show "fst e \<noteq> k"
      proof
        assume "fst e = k"
        with True have "fst e = fst x" by simp
        with mem have "fst x \<in> fst ` set xs" by (simp only:)
        with nin show False by (rule notE)
      qed
    qed
    then have "filter (\<lambda>e. fst e = k) xs = []" by (simp add: filter_empty_conv)
    with True show ?thesis by simp
  next
    case False
    with Cons.prems(2) have "map_of xs k = Some v" by (cases x) auto
    with Cons.IH Cons.prems(1) False show ?thesis by simp
  qed
qed

subsection \<open>The second loop\<close>

lemma emit_field_sets: "emit w tgs acc kvs = acc @ concat (map (field_set w tgs) kvs)"
  by (induction w tgs acc kvs rule: emit.induct) (simp_all add: field_set_def split: sum.splits)

lemma field_sets_valid:
  "concat (map (field_set w tgs) kvs) =
     map (\<lambda>e. AddFields ''azure_monitor'' (snd e) tgs (projr (Parse w (fst e))))
       (filter (\<lambda>e. \<not> isl (Parse w (fst e))) kvs)"
  by (induction kvs) (simp_all add: field_set_def split: sum.splits)

lemma mset_field_sets:
  assumes "mset xs = mset ys"
  shows "mset (concat (map (field_set w tgs) xs)) = mset (concat (map (field_set w tgs) ys))"
proof -
  have "mset (filter (\<lambda>e. \<not> isl (Parse w (fst e))) xs) = mset (filter (\<lambda>e. \<not> isl (Parse w (fst e))) ys)"
    using assms by simp
  then show ?thesis
    unfolding field_sets_valid by (simp only: mset_map)
qed

lemma Gather_success:
  assumes "makeRequest w a tr = (Inr resp, tr')" and "parseResponse w resp = Inr m"
  shows "Gather w a acc tr =
           (None,
            acc @ concat (map (field_set w [(''resource_id'', ResourceId a)])
                            (map_range w (foldl put_point [] (points m)))),
            tr')"
  using assms by (simp add: Gather_def fieldsByTimestamp_foldl emit_field_sets)

lemma range_ok_mset: "range_ok w \<Longrightarrow> mset (map_range w m) = mset m"
  by (simp add: range_ok_def)

lemma range_ok_set: "range_ok w \<Longrightarrow> set (map_range w m) = set m"
  using range_ok_mset [of w m] by (rule mset_eq_setD)

lemma range_ok_demo_world: "range_ok demo_world"
  by (simp add: range_ok_def demo_world_def)

subsection \<open>Empty responses\<close>

text \<open>
  C7. A response whose \<^verbatim>\<open>Value\<close> array is empty is bucketed into the empty map, and a
  cycle that receives it returns no error and leaves the accumulator as it was. A metric
  whose \<^verbatim>\<open>TimeSeries\<close> list is empty changes nothing: the map is the one built from
  the response without that metric.
\<close>

theorem empty_response_emits_nothing:
  "(Values m = [] \<longrightarrow> fieldsByTimestamp m = Inr []) \<and>
   (range_ok w \<and> makeRequest w a tr = (Inr resp, tr') \<and> parseResponse w resp = Inr m \<and> Values m = []
      \<longrightarrow> Gather w a acc tr = (None, acc, tr')) \<and>
   (TimeSeries v = [] \<longrightarrow>
      fieldsByTimestamp (m\<lparr>Values := vs @ v # ws\<rparr>) = fieldsByTimestamp (m\<lparr>Values := vs @ ws\<rparr>))"
proof (intro conjI impI)
  assume "Values m = []"
  then show "fieldsByTimestamp m = Inr []"
    by (simp add: fieldsByTimestamp_def)
next
  assume h: "range_ok w \<and> makeRequest w a tr = (Inr resp, tr') \<and> parseResponse w resp = Inr m
               \<and> Values m = []"
  then have "points m = []" by (simp add: points_def)
  moreover from h have "map_range w [] = []"
    using range_ok_mset [of w "[]"] by simp
  ultimately show "Gather w a acc tr = (None, acc, tr')"
    using h Gather_success [of w a tr resp tr' m acc] by simp
next
  assume "TimeSeries v = []"
  then have "points_of_value v = []" by (simp add: points_of_value_def)
  then show "fieldsByTimestamp (m\<lparr>Values := vs @ v # ws\<rparr>) = fieldsByTimestamp (m\<lparr>Values := vs @ ws\<rparr>)"
    by (simp add: fieldsByTimestamp_foldl points_def)
qed

theorem empty_response_emits_nothing_witness:
  "Values (cpu_response\<lparr>Values := []\<rparr>) = [] \<and>
   fieldsByTimestamp (cpu_response\<lparr>Values := []\<rparr>) = Inr [] \<and>
   range_ok (demo_world\<lparr>Decode := \<lambda>b. Inr (cpu_response\<lparr>Values := []\<rparr>)\<rparr>) \<and>
   fst (Gather (demo_world\<lparr>Decode := \<lambda>b. Inr (cpu_response\<lparr>Values := []\<rparr>)\<rparr>) demo_plugin [] []) = None \<and>
   fst (snd (Gather (demo_world\<lparr>Decode := \<lambda>b. Inr (cpu_response\<lparr>Values := []\<rparr>)\<rparr>) demo_plugin [] [])) = [] \<and>
   TimeSeries (metric ''disk'' []) = [] \<and>
   fieldsByTimestamp sample_response =
     fieldsByTimestamp (sample_response\<lparr>Values := butlast (Values sample_response)\<rparr>)"
proof -
  let ?m = "cpu_response\<lparr>Values := []\<rparr>"
  let ?w = "demo_world\<lparr>Decode := \<lambda>b. Inr ?m\<rparr>"
  let ?resp = "\<lparr>StatusCode = 200, Body = Inr sample_body\<rparr>"
  have v: "Values ?m = []" by simp
  have r: "range_ok ?w" by (simp add: range_ok_def demo_world_def)
  have "fst (makeRequest ?w demo_plugin []) = Inr ?resp"
    by (simp add: makeRequest_def Let_def demo_world_def demo_plugin_def)
  then have mk: "makeRequest ?w demo_plugin [] = (Inr ?resp, snd (makeRequest ?w demo_plugin []))"
    by (simp add: prod_eq_iff)
  have p: "parseResponse ?w ?resp = Inr ?m"
    by (simp add: parseResponse_def)
  have t: "TimeSeries (metric ''disk'' []) = []" by (simp add: metric_def)
  note thm1 = empty_response_emits_nothing [of ?m ?w demo_plugin "[]" ?resp
                "snd (makeRequest ?w demo_plugin [])" "[]"]
  have b: "fieldsByTimestamp ?m = Inr []"
    using thm1 v by blast
  have g: "Gather ?w demo_plugin [] [] = (None, [], snd (makeRequest ?w demo_plugin []))"
    using thm1 v r mk p by blast
  have s: "fieldsByTimestamp (sample_response\<lparr>Values := [metric ''cpu''
           [[(1, ''2024-01-01T00:00:00Z''), (2, ''2024-01-01T00:01:00Z'')],
            [(3, ''2024-01-01T00:00:00Z''), (9, ''not-a-date'')]],
         metric ''mem'' [[(50, ''2024-01-01T00:00:00Z'')]]] @ metric ''disk'' [] # []\<rparr>)
       = fieldsByTimestamp (sample_response\<lparr>Values := [metric ''cpu''
           [[(1, ''2024-01-01T00:00:00Z''), (2, ''2024-01-01T00:01:00Z'')],
            [(3, ''2024-01-01T00:00:00Z''), (9, ''not-a-date'')]],
         metric ''mem'' [[(50, ''2024-01-01T00:00:00Z'')]]] @ []\<rparr>)"
    using empty_response_emits_nothing [THEN conjunct2, THEN conjunct2, rule_format, OF t] .
  have s': "fieldsByTimestamp sample_response =
     fieldsByTimestamp (sample_response\<lparr>Values := butlast (Values sample_response)\<rparr>)"
    using s by (simp add: sample_response_def)
  show ?thesis
    using v r t b s' by (simp only: g fst_conv snd_conv simp_thms)
qed

subsection \<open>Last writer wins\<close>

text \<open>
  C4. Take any point (name, time stamp, average) of the response after which, in the
  order of the loops, no point with the same name and the same time stamp follows; it
  may well be preceded by such points, in the same series or in another one. Then the
  grouping pass does not panic, the map it builds has exactly one entry under that time
  stamp, the field set stored there has exactly one field under that name, and the
  value of the field is the average of that last point.
\<close>

theorem last_writer_wins:
  assumes "points m = pre @ (name, ts, avg) # post"
    and "\<forall>avg'. (name, ts, avg') \<notin> set post"
  shows "\<exists>fbt flds. fieldsByTimestamp m = Inr fbt \<and>
           map_of fbt ts = Some flds \<and> map_of flds name = Some avg \<and>
           length (filter (\<lambda>e. fst e = ts) fbt) = 1 \<and>
           length (filter (\<lambda>e. fst e = name) flds) = 1"
proof -
  let ?fbt = "foldl put_point [] (points m)"
  have "ts \<in> (\<lambda>p. fst (snd p)) ` set (points m)"
    using assms(1) by force
  then have "ts \<in> fst ` set ?fbt"
    by (simp only: buckets_keys)
  then obtain flds where e: "(ts, flds) \<in> set ?fbt" by auto
  then have look: "map_of ?fbt ts = Some flds"
    using buckets_distinct [of "points m"] by simp
  have "map_of flds name = last_average (points m) ts name"
    using e by (rule buckets_entry)
  also have "\<dots> = Some avg"
    unfolding assms(1) using assms(2) by (rule last_average_last)
  finally have val: "map_of flds name = Some avg" .
  have "flds \<in> snd ` set ?fbt"
    using e by force
  then have "distinct (map fst flds)"
    using buckets_slots_ok [of "points m"] unfolding slots_ok_def by blast
  then have one: "length (filter (\<lambda>e. fst e = name) flds) = 1"
    using val by (rule one_entry_per_key)
  have "length (filter (\<lambda>e. fst e = ts) ?fbt) = 1"
    using buckets_distinct look by (rule one_entry_per_key)
  with look val one show ?thesis
    by (simp add: fieldsByTimestamp_foldl)
qed

theorem last_writer_wins_witness:
  "points sample_response =
     [(''cpu'', ''2024-01-01T00:00:00Z'', 1), (''cpu'', ''2024-01-01T00:01:00Z'', 2)]
       @ (''cpu'', ''2024-01-01T00:00:00Z'', 3)
       # [(''cpu'', ''not-a-date'', 9), (''mem'', ''2024-01-01T00:00:00Z'', 50)] \<and>
   (\<forall>avg'. (''cpu'', ''2024-01-01T00:00:00Z'', avg')
              \<notin> set [(''cpu'', ''not-a-date'', 9), (''mem'', ''2024-01-01T00:00:00Z'', 50::real)]) \<and>
   (\<exists>fbt flds. fieldsByTimestamp sample_response = Inr fbt \<and>
      map_of fbt ''2024-01-01T00:00:00Z'' = Some flds \<and> map_of flds ''cpu'' = Some 3 \<and>
      length (filter (\<lambda>e. fst e = ''2024-01-01T00:00:00Z'') fbt) = 1 \<and>
      length (filter (\<lambda>e. fst e = ''cpu'') flds) = 1)"
proof -
  have p: "points sample_response =
     [(''cpu'', ''2024-01-01T00:00:00Z'', 1), (''cpu'', ''2024-01-01T00:01:00Z'', 2)]
       @ (''cpu'', ''2024-01-01T00:00:00Z'', 3)
       # [(''cpu'', ''not-a-date'', 9), (''mem'', ''2024-01-01T00:00:00Z'', 50)]"
    by (simp add: points_def points_of_value_def sample_response_def metric_def)
  have n: "\<forall>avg'. (''cpu'', ''2024-01-01T00:00:00Z'', avg')
              \<notin> set [(''cpu'', ''not-a-date'', 9), (''mem'', ''2024-01-01T00:00:00Z'', 50::real)]"
    by simp
  from last_writer_wins [OF p n] p n show ?thesis by blast
qed

subsection \<open>The calls of a successful cycle\<close>

lemma not_isl_iff: "\<not> isl x \<longleftrightarrow> (\<exists>t. x = Inr t)"
  by (cases x) simp_all

lemma range_distinct:
  assumes "range_ok w"
  shows "distinct (map fst (map_range w (foldl put_point [] ps)))"
proof -
  have "mset (map fst (map_range w (foldl put_point [] ps))) = mset (map fst (foldl put_point [] ps))"
    using range_ok_mset [OF assms, of "foldl put_point [] ps"] by simp
  then have "distinct (map fst (map_range w (foldl put_point [] ps)))
               \<longleftrightarrow> distinct (map fst (foldl put_point [] ps))"
    by (rule mset_eq_imp_distinct_iff)
  then show ?thesis
    by (simp add: buckets_distinct)
qed

lemma entry_sound:
  assumes "e \<in> set (foldl put_point [] ps)"
  shows "snd e \<noteq> [] \<and> (\<forall>(n, v) \<in> set (snd e). (n, fst e, v) \<in> set ps)"
proof -
  have "snd e \<in> snd ` set (foldl put_point [] ps)"
    using assms by (rule imageI)
  then have ok: "snd e \<noteq> [] \<and> distinct (map fst (snd e))"
    using buckets_slots_ok [of ps] unfolding slots_ok_def by (rule bspec [rotated])
  have "\<forall>(n, v) \<in> set (snd e). (n, fst e, v) \<in> set ps"
  proof (clarify)
    fix n v
    assume "(n, v) \<in> set (snd e)"
    with ok have "map_of (snd e) n = Some v" by simp
    moreover have "map_of (snd e) n = last_average ps (fst e) n"
      using assms by (intro buckets_entry) simp
    ultimately have "last_average ps (fst e) n = Some v" by simp
    then show "(n, fst e, v) \<in> set ps" by (rule last_average_in_points)
  qed
  with ok show ?thesis by simp
qed

lemma sample_points:
  "points sample_response =
     [(''cpu'', ''2024-01-01T00:00:00Z'', 1), (''cpu'', ''2024-01-01T00:01:00Z'', 2),
      (''cpu'', ''2024-01-01T00:00:00Z'', 3), (''cpu'', ''not-a-date'', 9),
      (''mem'', ''2024-01-01T00:00:00Z'', 50)]"
  by (simp add: points_def points_of_value_def sample_response_def metric_def)

lemma sample_buckets:
  "foldl put_point [] (points sample_response) =
     [(''2024-01-01T00:00:00Z'', [(''cpu'', 3), (''mem'', 50)]),
      (''2024-01-01T00:01:00Z'', [(''cpu'', 2)]),
      (''not-a-date'', [(''cpu'', 9)])]"
  by (simp add: sample_points put_point_def)

lemma demo_request:
  "makeRequest demo_world demo_plugin [] =
     (Inr \<lparr>StatusCode = 200, Body = Inr sample_body\<rparr>, snd (makeRequest demo_world demo_plugin []))"
proof -
  have "fst (makeRequest demo_world demo_plugin []) = Inr \<lparr>StatusCode = 200, Body = Inr sample_body\<rparr>"
    by (simp add: makeRequest_def Let_def demo_world_def demo_plugin_def)
  then show ?thesis
    by (simp add: prod_eq_iff)
qed

lemma demo_parse:
  "parseResponse demo_world \<lparr>StatusCode = 200, Body = Inr sample_body\<rparr> = Inr sample_response"
  by (simp add: parseResponse_def demo_world_def cpu_body_def sample_body_def)

lemma demo_Gather:
  "Gather demo_world demo_plugin [] [] =
     (None,
      [AddFields ''azure_monitor'' [(''cpu'', 2)] [(''resource_id'', ''/subscriptions/s/vm'')] 1704067260,
       AddFields ''azure_monitor'' [(''cpu'', 3), (''mem'', 50)]
         [(''resource_id'', ''/subscriptions/s/vm'')] 1704067200],
      snd (makeRequest demo_world demo_plugin []))"
proof -
  have r: "map_range demo_world = rev" by (simp add: demo_world_def)
  have p: "Parse demo_world =
             (\<lambda>ts. if ts = ''2024-01-01T00:00:00Z'' then Inr 1704067200
                    else if ts = ''2024-01-01T00:01:00Z'' then Inr 1704067260
                    else Inl (LibraryError ''cannot parse''))"
    by (simp add: demo_world_def)
  have i: "ResourceId demo_plugin = ''/subscriptions/s/vm''" by (simp add: demo_plugin_def)
  show ?thesis
    unfolding Gather_success [OF demo_request demo_parse] sample_buckets r
    by (simp add: field_set_def p i)
qed

text \<open>
  C1. In a cycle whose request and parse succeed, the grouping pass builds a map, and
  the \<^verbatim>\<open>AddFields\<close> calls made correspond one to one, in the order of emission, to
  entries of that map with pairwise different keys; the keys of these entries are
  exactly the time stamp strings that occur in some point of the response and that
  \<^verbatim>\<open>time.Parse\<close> accepts. The call of an entry carries the parsed time of its key and
  its field set, and the field set holds, for every metric name, the last average that
  the response reports for that name at that time stamp string: the values that share
  a time stamp string are all in that one field set.
\<close>

theorem one_field_set_per_timestamp:
  assumes "range_ok w"
    and "makeRequest w a tr = (Inr resp, tr')"
    and "parseResponse w resp = Inr m"
  shows "\<exists>fbt kvs cs.
           fieldsByTimestamp m = Inr fbt \<and> set kvs \<subseteq> set fbt \<and>
           distinct (map fst kvs) \<and>
           set (map fst kvs) =
             {ts \<in> (\<lambda>p. fst (snd p)) ` set (points m). \<exists>t. Parse w ts = Inr t} \<and>
           (\<forall>e \<in> set kvs. \<forall>name. map_of (snd e) name = last_average (points m) (fst e) name) \<and>
           Gather w a acc tr = (None, acc @ cs, tr') \<and>
           list_all2
             (\<lambda>e c. \<exists>t. Parse w (fst e) = Inr t \<and>
                      c = AddFields ''azure_monitor'' (snd e) [(''resource_id'', ResourceId a)] t)
             kvs cs"
proof -
  let ?fbt = "foldl put_point [] (points m)"
  let ?tgs = "[(''resource_id'', ResourceId a)]"
  let ?valid = "\<lambda>e. \<not> isl (Parse w (fst e))"
  let ?call = "\<lambda>e. AddFields ''azure_monitor'' (snd e) ?tgs (projr (Parse w (fst e)))"
  let ?kvs = "filter ?valid (map_range w ?fbt)"
  let ?cs = "map ?call ?kvs"
  have set_range: "set (map_range w ?fbt) = set ?fbt"
    using assms(1) by (rule range_ok_set)
  have 1: "fieldsByTimestamp m = Inr ?fbt"
    by (rule fieldsByTimestamp_foldl)
  have 2: "set ?kvs \<subseteq> set ?fbt"
    using set_range by auto
  have 3: "distinct (map fst ?kvs)"
    using range_distinct [OF assms(1)] by (rule distinct_map_filter)
  have "set (map fst ?kvs) = {ts \<in> fst ` set ?fbt. \<exists>t. Parse w ts = Inr t}"
    unfolding set_map set_filter set_range by (auto simp: not_isl_iff)
  then have 4: "set (map fst ?kvs) =
                  {ts \<in> (\<lambda>p. fst (snd p)) ` set (points m). \<exists>t. Parse w ts = Inr t}"
    by (simp only: buckets_keys)
  have 5: "\<forall>e \<in> set ?kvs. \<forall>name. map_of (snd e) name = last_average (points m) (fst e) name"
  proof (intro ballI allI)
    fix e name
    assume "e \<in> set ?kvs"
    with 2 have "(fst e, snd e) \<in> set ?fbt" by auto
    then show "map_of (snd e) name = last_average (points m) (fst e) name"
      by (rule buckets_entry)
  qed
  have 6: "Gather w a acc tr = (None, acc @ ?cs, tr')"
    using Gather_success [OF assms(2,3)] by (simp only: field_sets_valid)
  have "\<forall>e \<in> set ?kvs. \<exists>t. Parse w (fst e) = Inr t \<and> ?call e = AddFields ''azure_monitor'' (snd e) ?tgs t"
    by (auto simp: not_isl_iff)
  then have 7: "list_all2
             (\<lambda>e c. \<exists>t. Parse w (fst e) = Inr t \<and> c = AddFields ''azure_monitor'' (snd e) ?tgs t)
             ?kvs ?cs"
    by (simp only: list_all2_map2 list_all2_same)
  from 1 2 3 4 5 6 7 show ?thesis by blast
qed

theorem one_field_set_per_timestamp_witness:
  "range_ok demo_world \<and>
   makeRequest demo_world demo_plugin [] =
     (Inr \<lparr>StatusCode = 200, Body = Inr sample_body\<rparr>, snd (makeRequest demo_world demo_plugin [])) \<and>
   parseResponse demo_world \<lparr>StatusCode = 200, Body = Inr sample_body\<rparr> = Inr sample_response \<and>
   (\<exists>fbt kvs cs.
      fieldsByTimestamp sample_response = Inr fbt \<and> set kvs \<subseteq> set fbt \<and>
      distinct (map fst kvs) \<and>
      set (map fst kvs) =
        {ts \<in> (\<lambda>p. fst (snd p)) ` set (points sample_response). \<exists>t. Parse demo_world ts = Inr t} \<and>
      (\<forall>e \<in> set kvs. \<forall>name.
         map_of (snd e) name = last_average (points sample_response) (fst e) name) \<and>
      Gather demo_world demo_plugin [] [] = (None, [] @ cs, snd (makeRequest demo_world demo_plugin [])) \<and>
      list_all2
        (\<lambda>e c. \<exists>t. Parse demo_world (fst e) = Inr t \<and>
                 c = AddFields ''azure_monitor'' (snd e) [(''resource_id'', ResourceId demo_plugin)] t)
        kvs cs)"
  by (rule conjI [OF range_ok_demo_world conjI [OF demo_request conjI [OF demo_parse
        one_field_set_per_timestamp [OF range_ok_demo_world demo_request demo_parse]]]])

subsection \<open>Time stamps that do not parse\<close>

text \<open>
  C3. In a cycle whose request and parse succeed, \<^verbatim>\<open>Gather\<close> returns no error whatever
  the time stamps are, and the calls it adds to the accumulator are, counted with
  multiplicity, one call for each entry of the map whose key \<^verbatim>\<open>time.Parse\<close> accepts,
  carrying the field set of the entry and the parsed time. An entry whose key does not
  parse gives no call, and takes no other entry with it.
\<close>

theorem malformed_timestamp_dropped:
  assumes "range_ok w"
    and "makeRequest w a tr = (Inr resp, tr')"
    and "parseResponse w resp = Inr m"
  shows "\<exists>fbt cs.
           fieldsByTimestamp m = Inr fbt \<and>
           Gather w a acc tr = (None, acc @ cs, tr') \<and>
           mset cs =
             image_mset
               (\<lambda>e. AddFields ''azure_monitor'' (snd e) [(''resource_id'', ResourceId a)]
                      (projr (Parse w (fst e))))
               (filter_mset (\<lambda>e. \<not> isl (Parse w (fst e))) (mset fbt))"
proof -
  let ?fbt = "foldl put_point [] (points m)"
  let ?valid = "\<lambda>e. \<not> isl (Parse w (fst e))"
  let ?call = "\<lambda>e. AddFields ''azure_monitor'' (snd e) [(''resource_id'', ResourceId a)]
                      (projr (Parse w (fst e)))"
  let ?cs = "map ?call (filter ?valid (map_range w ?fbt))"
  have 1: "fieldsByTimestamp m = Inr ?fbt"
    by (rule fieldsByTimestamp_foldl)
  have 2: "Gather w a acc tr = (None, acc @ ?cs, tr')"
    using Gather_success [OF assms(2,3)] by (simp only: field_sets_valid)
  have "mset ?cs = image_mset ?call (filter_mset ?valid (mset (map_range w ?fbt)))"
    by simp
  then have 3: "mset ?cs = image_mset ?call (filter_mset ?valid (mset ?fbt))"
    by (simp only: range_ok_mset [OF assms(1)])
  from 1 2 3 show ?thesis by blast
qed

theorem malformed_timestamp_dropped_witness:
  "range_ok demo_world \<and>
   makeRequest demo_world demo_plugin [] =
     (Inr \<lparr>StatusCode = 200, Body = Inr sample_body\<rparr>, snd (makeRequest demo_world demo_plugin [])) \<and>
   parseResponse demo_world \<lparr>StatusCode = 200, Body = Inr sample_body\<rparr> = Inr sample_response \<and>
   (\<exists>fbt cs.
      fieldsByTimestamp sample_response = Inr fbt \<and>
      Gather demo_world demo_plugin [] [] = (None, [] @ cs, snd (makeRequest demo_world demo_plugin [])) \<and>
      mset cs =
        image_mset
          (\<lambda>e. AddFields ''azure_monitor'' (snd e) [(''resource_id'', ResourceId demo_plugin)]
                 (projr (Parse demo_world (fst e))))
          (filter_mset (\<lambda>e. \<not> isl (Parse demo_world (fst e))) (mset fbt))) \<and>
   isl (Parse demo_world ''not-a-date'') \<and>
   (''not-a-date'', [(''cpu'', 9)]) \<in> set (foldl put_point [] (points sample_response))"
proof -
  have bad: "isl (Parse demo_world ''not-a-date'')"
    by (simp add: demo_world_def)
  have ent: "(''not-a-date'', [(''cpu'', 9)]) \<in> set (foldl put_point [] (points sample_response))"
    by (simp add: sample_buckets)
  show ?thesis
    by (rule conjI [OF range_ok_demo_world conjI [OF demo_request conjI [OF demo_parse
          conjI [OF malformed_timestamp_dropped [OF range_ok_demo_world demo_request demo_parse]
            conjI [OF bad ent]]]]])
qed

subsection \<open>What an emitted field set holds\<close>

text \<open>
  C10. Whatever the outcome of the cycle, every \<^verbatim>\<open>AddFields\<close> call that \<^verbatim>\<open>Gather\<close>
  adds to the accumulator comes from a response that was received and parsed, has the
  measurement name \<^verbatim>\<open>azure_monitor\<close>, has as its tags the single pair of
  \<^verbatim>\<open>resource_id\<close> and the configured resource id, and carries the parsed time of some
  time stamp string; its field set is not empty, and every field in it is the name of a
  metric together with the average of a point of that metric with exactly that time
  stamp string.
\<close>

theorem emitted_field_sets_sound:
  assumes "range_ok w"
  shows "\<exists>cs. fst (snd (Gather w a acc tr)) = acc @ cs \<and>
           (\<forall>c \<in> set cs. \<exists>resp tr' m ts flds t.
              makeRequest w a tr = (Inr resp, tr') \<and> parseResponse w resp = Inr m \<and>
              c = AddFields ''azure_monitor'' flds [(''resource_id'', ResourceId a)] t \<and>
              Parse w ts = Inr t \<and> flds \<noteq> [] \<and>
              (\<forall>(name, avg) \<in> set flds. (name, ts, avg) \<in> set (points m)))"
proof -
  obtain r tr' where mk: "makeRequest w a tr = (r, tr')"
    by (cases "makeRequest w a tr")
  show ?thesis
  proof (cases r)
    case (Inl e)
    with mk have "fst (snd (Gather w a acc tr)) = acc @ []"
      by (simp add: Gather_def)
    then show ?thesis by (intro exI [of _ "[]"]) simp
  next
    case (Inr resp)
    note resp = mk [unfolded Inr]
    show ?thesis
    proof (cases "parseResponse w resp")
      case (Inl e)
      with resp have "fst (snd (Gather w a acc tr)) = acc @ []"
        by (simp add: Gather_def)
      then show ?thesis by (intro exI [of _ "[]"]) simp
    next
      case (Inr m)
      let ?fbt = "foldl put_point [] (points m)"
      let ?tgs = "[(''resource_id'', ResourceId a)]"
      let ?valid = "\<lambda>e. \<not> isl (Parse w (fst e))"
      let ?call = "\<lambda>e. AddFields ''azure_monitor'' (snd e) ?tgs (projr (Parse w (fst e)))"
      let ?cs = "map ?call (filter ?valid (map_range w ?fbt))"
      have g: "fst (snd (Gather w a acc tr)) = acc @ ?cs"
        using Gather_success [OF resp Inr] by (simp only: field_sets_valid fst_conv snd_conv)
      have "\<forall>c \<in> set ?cs. \<exists>resp tr' m ts flds t.
              makeRequest w a tr = (Inr resp, tr') \<and> parseResponse w resp = Inr m \<and>
              c = AddFields ''azure_monitor'' flds ?tgs t \<and>
              Parse w ts = Inr t \<and> flds \<noteq> [] \<and>
              (\<forall>(name, avg) \<in> set flds. (name, ts, avg) \<in> set (points m))"
      proof
        fix c
        assume "c \<in> set ?cs"
        then obtain e where e: "e \<in> set (map_range w ?fbt)" "?valid e" and c: "c = ?call e"
          by auto
        from e(1) have "e \<in> set ?fbt"
          by (simp only: range_ok_set [OF assms])
        then have sound: "snd e \<noteq> [] \<and> (\<forall>(n, v) \<in> set (snd e). (n, fst e, v) \<in> set (points m))"
          by (rule entry_sound)
        from e(2) obtain t where t: "Parse w (fst e) = Inr t"
          by (auto simp: not_isl_iff)
        with c have "c = AddFields ''azure_monitor'' (snd e) ?tgs t" by simp
        with resp Inr t sound
        show "\<exists>resp tr' m ts flds t.
              makeRequest w a tr = (Inr resp, tr') \<and> parseResponse w resp = Inr m \<and>
              c = AddFields ''azure_monitor'' flds ?tgs t \<and>
              Parse w ts = Inr t \<and> flds \<noteq> [] \<and>
              (\<forall>(name, avg) \<in> set flds. (name, ts, avg) \<in> set (points m))"
          by (intro exI [of _ resp] exI [of _ tr'] exI [of _ m] exI [of _ "fst e"]
                exI [of _ "snd e"] exI [of _ t]) simp
      qed
      with g show ?thesis by (intro exI [of _ ?cs]) simp
    qed
  qed
qed

theorem emitted_field_sets_sound_witness:
  "range_ok demo_world \<and>
   (\<exists>cs. fst (snd (Gather demo_world demo_plugin [] [])) = [] @ cs \<and>
      (\<forall>c \<in> set cs. \<exists>resp tr' m ts flds t.
         makeRequest demo_world demo_plugin [] = (Inr resp, tr') \<and>
         parseResponse demo_world resp = Inr m \<and>
         c = AddFields ''azure_monitor'' flds [(''resource_id'', ResourceId demo_plugin)] t \<and>
         Parse demo_world ts = Inr t \<and> flds \<noteq> [] \<and>
         (\<forall>(name, avg) \<in> set flds. (name, ts, avg) \<in> set (points m)))) \<and>
   length (fst (snd (Gather demo_world demo_plugin [] []))) = 2"
proof -
  have len: "length (fst (snd (Gather demo_world demo_plugin [] []))) = 2"
    by (simp add: demo_Gather)
  show ?thesis
    by (rule conjI [OF range_ok_demo_world
          conjI [OF emitted_field_sets_sound [OF range_ok_demo_world] len]])
qed

subsection \<open>The order of the runtime does not matter\<close>

text \<open>
  C9. The grouping pass is a function of the response alone, and of nothing in it but
  its points: two responses with the same points, in the same order, are bucketed into
  the same map. The only choice that is not the response's is the order in which \<^verbatim>\<open>range\<close> walks the map, and it does not
  show in what is emitted: two runs of \<^verbatim>\<open>Gather\<close> in worlds that differ only in that
  order return the same error or success, make the same outside calls and add the same
  \<^verbatim>\<open>AddFields\<close> calls, each as many times in one run as in the other.
\<close>

theorem bucketing_order_independent:
  assumes "range_ok w" and "range_ok (w\<lparr>map_range := r\<rparr>)"
  shows "fst (Gather (w\<lparr>map_range := r\<rparr>) a acc tr) = fst (Gather w a acc tr) \<and>
         mset (fst (snd (Gather (w\<lparr>map_range := r\<rparr>) a acc tr)))
           = mset (fst (snd (Gather w a acc tr))) \<and>
         snd (snd (Gather (w\<lparr>map_range := r\<rparr>) a acc tr)) = snd (snd (Gather w a acc tr)) \<and>
         (points m = points m' \<longrightarrow> fieldsByTimestamp m = fieldsByTimestamp m')"
proof -
  let ?w' = "w\<lparr>map_range := r\<rparr>"
  have same: "points m = points m' \<longrightarrow> fieldsByTimestamp m = fieldsByTimestamp m'"
    by (simp add: fieldsByTimestamp_foldl)
  have mk: "makeRequest ?w' a tr = makeRequest w a tr"
    by (simp add: makeRequest_def Let_def split: sum.splits option.splits)
  have ps: "\<And>resp. parseResponse ?w' resp = parseResponse w resp"
    by (simp add: parseResponse_def split: sum.splits)
  have fs: "\<And>tgs. field_set ?w' tgs = field_set w tgs"
    by (rule ext) (simp add: field_set_def split: sum.splits)
  obtain res tr' where res: "makeRequest w a tr = (res, tr')"
    by (cases "makeRequest w a tr")
  show ?thesis
  proof (cases res)
    case (Inl e)
    with res mk same show ?thesis by (simp add: Gather_def)
  next
    case (Inr resp)
    note resp = res [unfolded Inr]
    show ?thesis
    proof (cases "parseResponse w resp")
      case (Inl e)
      with resp mk ps same show ?thesis by (simp add: Gather_def)
    next
      case (Inr m)
      let ?fbt = "foldl put_point [] (points m)"
      let ?tgs = "[(''resource_id'', ResourceId a)]"
      have g: "Gather w a acc tr = (None, acc @ concat (map (field_set w ?tgs) (map_range w ?fbt)), tr')"
        using resp Inr by (rule Gather_success)
      have resp': "makeRequest ?w' a tr = (Inr resp, tr')"
        using resp mk by simp
      have m': "parseResponse ?w' resp = Inr m"
        using Inr ps by simp
      have g': "Gather ?w' a acc tr
              = (None, acc @ concat (map (field_set w ?tgs) (map_range ?w' ?fbt)), tr')"
        using Gather_success [OF resp' m', of acc] by (simp only: fs)
      have "mset (map_range ?w' ?fbt) = mset (map_range w ?fbt)"
        by (simp only: range_ok_mset [OF assms(1)] range_ok_mset [OF assms(2)])
      then have "mset (concat (map (field_set w ?tgs) (map_range ?w' ?fbt)))
                   = mset (concat (map (field_set w ?tgs) (map_range w ?fbt)))"
        by (rule mset_field_sets)
      with same show ?thesis
        by (simp add: g g')
    qed
  qed
qed

theorem bucketing_order_independent_witness:
  "range_ok demo_world \<and> range_ok (demo_world\<lparr>map_range := \<lambda>m. m\<rparr>) \<and>
   points (sample_response\<lparr>Cost := 7\<rparr>) = points sample_response \<and>
   fst (Gather (demo_world\<lparr>map_range := \<lambda>m. m\<rparr>) demo_plugin [] [])
     = fst (Gather demo_world demo_plugin [] []) \<and>
   mset (fst (snd (Gather (demo_world\<lparr>map_range := \<lambda>m. m\<rparr>) demo_plugin [] [])))
     = mset (fst (snd (Gather demo_world demo_plugin [] []))) \<and>
   snd (snd (Gather (demo_world\<lparr>map_range := \<lambda>m. m\<rparr>) demo_plugin [] []))
     = snd (snd (Gather demo_world demo_plugin [] [])) \<and>
   fieldsByTimestamp (sample_response\<lparr>Cost := 7\<rparr>) = fieldsByTimestamp sample_response"
proof -
  have r: "range_ok (demo_world\<lparr>map_range := \<lambda>m. m\<rparr>)"
    by (simp add: range_ok_def)
  have p: "points (sample_response\<lparr>Cost := 7\<rparr>) = points sample_response"
    by (simp add: points_def)
  note t = bucketing_order_independent [OF range_ok_demo_world r, of demo_plugin "[]" "[]"
             "sample_response\<lparr>Cost := 7\<rparr>" sample_response]
  have 1: "fst (Gather (demo_world\<lparr>map_range := \<lambda>m. m\<rparr>) demo_plugin [] [])
             = fst (Gather demo_world demo_plugin [] [])"
    using t by (rule conjunct1)
  have 2: "mset (fst (snd (Gather (demo_world\<lparr>map_range := \<lambda>m. m\<rparr>) demo_plugin [] [])))
             = mset (fst (snd (Gather demo_world demo_plugin [] [])))"
    using t [THEN conjunct2] by (rule conjunct1)
  have 3: "snd (snd (Gather (demo_world\<lparr>map_range := \<lambda>m. m\<rparr>) demo_plugin [] []))
             = snd (snd (Gather demo_world demo_plugin [] []))"
    using t [THEN conjunct2, THEN conjunct2] by (rule conjunct1)
  have 4: "fieldsByTimestamp (sample_response\<lparr>Cost := 7\<rparr>) = fieldsByTimestamp sample_response"
    using t [THEN conjunct2, THEN conjunct2, THEN conjunct2, rule_format, OF p] .
  show ?thesis
    by (rule conjI [OF range_ok_demo_world conjI [OF r conjI [OF p conjI [OF 1 conjI [OF 2
          conjI [OF 3 4]]]]]])
qed

subsection \<open>The example of the specification\<close>

text \<open>
  C6. The server answers 200 with the body \<open>cpu_body\<close>, in which most fields of the
  schema are absent and the keys are written in the provider's case. In every world
  whose decoder and time parser answer as the library is described to, the decoder
  accepts the body and decodes it to \<open>cpu_response\<close>, the absent fields at their zero
  values, so parsing succeeds; and \<^verbatim>\<open>Gather\<close> returns no error after exactly one
  \<^verbatim>\<open>AddFields\<close> call: measurement \<^verbatim>\<open>azure_monitor\<close>, the single field
  \<^verbatim>\<open>Percentage CPU\<close> with value 42.5, the single tag \<^verbatim>\<open>resource_id\<close> with the configured
  resource id, and the time 2024-01-01 00:00:00 UTC.
\<close>

theorem percentage_cpu_example:
  assumes "range_ok w" and "json_agrees w" and "time_agrees w"
    and "makeRequest w a tr = (Inr \<lparr>StatusCode = 200, Body = Inr cpu_body\<rparr>, tr')"
  shows "json_Decode cpu_body = Accepted cpu_response \<and>
         parseResponse w \<lparr>StatusCode = 200, Body = Inr cpu_body\<rparr> = Inr cpu_response \<and>
         Gather w a acc tr =
           (None,
            acc @ [AddFields ''azure_monitor'' [(''Percentage CPU'', 42.5)]
                     [(''resource_id'', ResourceId a)]
                     \<lparr>Year = 2024, Month = 1, Day = 1, Hour = 0, Minute = 0, Second = 0\<rparr>],
            tr')"
proof -
  have d: "Decode w cpu_body = Inr cpu_response"
    using assms(2) cpu_body_decodes by (rule json_agrees_Accepted)
  have t: "Parse w ''2024-01-01T00:00:00Z''
             = Inr \<lparr>Year = 2024, Month = 1, Day = 1, Hour = 0, Minute = 0, Second = 0\<rparr>"
    using assms(3) midnight_parses by (rule time_agrees_Accepted)
  have p: "parseResponse w \<lparr>StatusCode = 200, Body = Inr cpu_body\<rparr> = Inr cpu_response"
    using d by (simp add: parseResponse_def)
  have pts: "points cpu_response = [(''Percentage CPU'', ''2024-01-01T00:00:00Z'', 42.5)]"
    by (simp add: points_def points_of_value_def cpu_response_def)
  have fbt: "foldl put_point [] (points cpu_response)
               = [(''2024-01-01T00:00:00Z'', [(''Percentage CPU'', 42.5)])]"
    by (simp add: pts put_point_def)
  have "mset (map_range w [(''2024-01-01T00:00:00Z'', [(''Percentage CPU'', 42.5)])])
          = {#(''2024-01-01T00:00:00Z'', [(''Percentage CPU'', 42.5)])#}"
    using range_ok_mset [OF assms(1)] by simp
  then have rng: "map_range w [(''2024-01-01T00:00:00Z'', [(''Percentage CPU'', 42.5)])]
                    = [(''2024-01-01T00:00:00Z'', [(''Percentage CPU'', 42.5)])]"
    by (simp only: mset_single_iff)
  have "Gather w a acc tr =
           (None,
            acc @ [AddFields ''azure_monitor'' [(''Percentage CPU'', 42.5)]
                     [(''resource_id'', ResourceId a)]
                     \<lparr>Year = 2024, Month = 1, Day = 1, Hour = 0, Minute = 0, Second = 0\<rparr>],
            tr')"
    unfolding Gather_success [OF assms(4) p] fbt rng
    by (simp add: field_set_def t)
  with p cpu_body_decodes show ?thesis by simp
qed

theorem percentage_cpu_example_witness:
  "range_ok go_world \<and> json_agrees go_world \<and> time_agrees go_world \<and>
   fst (makeRequest go_world demo_plugin []) = Inr \<lparr>StatusCode = 200, Body = Inr cpu_body\<rparr> \<and>
   parseResponse go_world \<lparr>StatusCode = 200, Body = Inr cpu_body\<rparr> = Inr cpu_response \<and>
   fst (Gather go_world demo_plugin [] []) = None \<and>
   fst (snd (Gather go_world demo_plugin [] []))
     = [AddFields ''azure_monitor'' [(''Percentage CPU'', 42.5)]
          [(''resource_id'', ''/subscriptions/s/vm'')]
          \<lparr>Year = 2024, Month = 1, Day = 1, Hour = 0, Minute = 0, Second = 0\<rparr>]"
proof -
  let ?resp = "\<lparr>StatusCode = 200, Body = Inr cpu_body\<rparr>"
  have f: "fst (makeRequest go_world demo_plugin []) = Inr ?resp"
    by (simp add: makeRequest_def Let_def go_world_def demo_plugin_def)
  then have mk: "makeRequest go_world demo_plugin []
                   = (Inr ?resp, snd (makeRequest go_world demo_plugin []))"
    by (simp add: prod_eq_iff)
  have i: "ResourceId demo_plugin = ''/subscriptions/s/vm''" by (simp add: demo_plugin_def)
  note t = percentage_cpu_example
             [OF range_ok_go_world json_agrees_go_world time_agrees_go_world mk, of "[]"]
  have p: "parseResponse go_world ?resp = Inr cpu_response"
    using t [THEN conjunct2] by (rule conjunct1)
  have g: "Gather go_world demo_plugin [] [] =
             (None,
              [] @ [AddFields ''azure_monitor'' [(''Percentage CPU'', 42.5)]
                      [(''resource_id'', ResourceId demo_plugin)]
                      \<lparr>Year = 2024, Month = 1, Day = 1, Hour = 0, Minute = 0, Second = 0\<rparr>],
              snd (makeRequest go_world demo_plugin []))"
    using t [THEN conjunct2] by (rule conjunct2)
  show ?thesis
    using range_ok_go_world json_agrees_go_world time_agrees_go_world f p
    by (simp only: g i fst_conv snd_conv append_Nil simp_thms)
qed

end
